theory Spec2Isabelle
  imports Complex_Main "HOL-Library.AList"
begin

section \<open>Data model of the stereo server\<close>

subsection \<open>JavaScript numbers\<close>

text \<open>
  Image coordinates, intrinsics and positions are JavaScript numbers (IEEE doubles).
  Their arithmetic is kept abstract: a record of the operations the source applies,
  so that every statement below holds for whatever these operations compute, rounding,
  infinities and NaN included. A comparison of two numbers has four outcomes; the
  source's \<open>d <= 0\<close> is true for the first two only.
\<close>

datatype cmp = CmpLess | CmpEqual | CmpGreater | CmpUnordered

record 'n arith =
  nlit :: "int \<Rightarrow> 'n"
  nadd :: "'n \<Rightarrow> 'n \<Rightarrow> 'n"
  nsub :: "'n \<Rightarrow> 'n \<Rightarrow> 'n"
  nmul :: "'n \<Rightarrow> 'n \<Rightarrow> 'n"
  ndiv :: "'n \<Rightarrow> 'n \<Rightarrow> 'n"
  nabs :: "'n \<Rightarrow> 'n"
  ncmp :: "'n \<Rightarrow> 'n \<Rightarrow> cmp"

definition le :: "'n arith \<Rightarrow> 'n \<Rightarrow> 'n \<Rightarrow> bool" where
  "le A a b = (ncmp A a b = CmpLess \<or> ncmp A a b = CmpEqual)"

definition gt :: "'n arith \<Rightarrow> 'n \<Rightarrow> 'n \<Rightarrow> bool" where
  "gt A a b = (ncmp A a b = CmpGreater)"

text \<open>The arithmetic of the reals, used to run the model on concrete inputs.\<close>

definition real_arith :: "real arith" where
  "real_arith = \<lparr> nlit = real_of_int, nadd = (+), nsub = (-), nmul = (*), ndiv = (/),
     nabs = abs,
     ncmp = (\<lambda>a b. if a < b then CmpLess else if a = b then CmpEqual else CmpGreater) \<rparr>"

subsection \<open>Frames, detections, positions, messages\<close>

type_synonym sock = nat

datatype role = Front | Back

datatype ready_state = CONNECTING | OPEN | CLOSING | CLOSED

datatype error = Error string

datatype camera = Cam1 | Cam2

text \<open>What \<open>stereoRectify\<close> returns: the rectification rotations and the projection
  matrices of the two cameras, and the reprojection matrix.\<close>

record 'm rectify_result =
  R1 :: 'm
  R2 :: 'm
  P1 :: 'm
  P2 :: 'm
  Q :: 'm

text \<open>The library calls the process makes. A call of \<open>initUndistortRectifyMap\<close> is recorded
  with the camera whose matrix and distortion it is given and with the rotation and the
  projection matrix it is given.\<close>

datatype 'm cv_call =
    StereoRectify
  | BgrToGray
  | InitUndistortRectifyMap camera 'm 'm
  | Remap
  | StereoBMCompute
  | DetectMultiScale

text \<open>What a call of a socket's \<open>send\<close> does: it returns and the message is written, or it
  returns and the write fails, which the socket library reports later and outside the
  call, or it throws.\<close>

datatype send_result = Sent | Failed | Thrown error

text \<open>A frame buffer element \<open>{ seq, timestamp, matColor }\<close>; timestamps are integer
  milliseconds.\<close>

record 'm frame =
  seq :: int
  timestamp :: int
  matColor :: 'm

record 'n rect =
  rect_x :: 'n
  rect_y :: 'n
  rect_width :: 'n
  rect_height :: 'n

record 'n point =
  pt_x :: 'n
  pt_y :: 'n

record 'n position =
  pos_x :: 'n
  pos_y :: 'n
  pos_z :: 'n

text \<open>The outbound object \<open>{ type: '3d_positions', data: result3D }\<close>.\<close>

record 'n payload =
  payload_type :: string
  payload_data :: "'n position list"

text \<open>A parsed inbound message; a field that a message does not carry is never read.\<close>

record msg =
  msg_type :: string
  msg_role :: string
  msg_seq :: int
  msg_timestamp :: int
  msg_img :: string

subsection \<open>The library and the calibration\<close>

text \<open>
  The image library and the sockets are outside the program: their functions are
  parameters. A call that throws returns \<open>Inl\<close>. \<open>cameraMatrix1\<close> and \<open>T\<close> are read with
  \<open>at(i, j)\<close>. \<open>stereoRectify\<close> is what the one call at module load returns.
  \<open>initUndistortRectifyMap\<close> takes the camera, standing for its matrix and distortion
  coefficients, and the rotation and projection matrix passed to it.
\<close>

record ('m, 'n) env =
  js :: "'n arith"
  cameraMatrix1 :: "nat \<Rightarrow> nat \<Rightarrow> 'n"
  T :: "nat \<Rightarrow> nat \<Rightarrow> 'n"
  stereoRectify :: "'m rectify_result"
  imdecode :: "string \<Rightarrow> error + 'm"
  bgrToGray :: "'m \<Rightarrow> error + 'm"
  initUndistortRectifyMap :: "camera \<Rightarrow> 'm \<Rightarrow> 'm \<Rightarrow> error + ('m \<times> 'm)"
  remap :: "'m \<Rightarrow> 'm \<times> 'm \<Rightarrow> error + 'm"
  stereoBM_compute :: "'m \<Rightarrow> 'm \<Rightarrow> error + 'm"
  detectMultiScale :: "'m \<Rightarrow> error + 'n rect list"
  send :: "sock \<Rightarrow> 'n payload \<Rightarrow> send_result"

subsection \<open>The state of the process\<close>

text \<open>
  \<open>frameBuffers\<close> holds the two queues; \<open>clients\<close> is the \<open>Map\<close> from socket to role, in
  insertion order; \<open>myRole\<close> is the variable each connection handler closes over;
  \<open>readyState\<close> is the socket's own attribute; \<open>rectification\<close> holds the constants
  \<open>R1\<close>, \<open>R2\<close>, \<open>P1\<close>, \<open>P2\<close>, \<open>Q\<close> of the module. The remaining fields record what the
  process did: the library calls made, the messages handed to a \<open>send\<close> that returned, the
  exceptions caught and logged, and the exceptions no handler caught.
\<close>

record ('m, 'n) server =
  frameBuffers :: "role \<Rightarrow> 'm frame list"
  clients :: "(sock \<times> role) list"
  myRole :: "sock \<Rightarrow> role option"
  readyState :: "sock \<Rightarrow> ready_state"
  rectification :: "'m rectify_result"
  calls :: "'m cv_call list"
  sent :: "(sock \<times> 'n payload) list"
  caught :: "error list"
  uncaught :: "error list"

text \<open>The module's top-level code runs once: it calls \<open>stereoRectify\<close>, keeps what the call
  returns, and leaves the buffers and the client map empty.\<close>

definition startup :: "('m, 'n) env \<Rightarrow> ('m, 'n) server" where
  "startup E = \<lparr> frameBuffers = (\<lambda>_. []), clients = [], myRole = (\<lambda>_. None),
     readyState = (\<lambda>_. CLOSED), rectification = stereoRectify E, calls = [StereoRectify],
     sent = [], caught = [], uncaught = [] \<rparr>"

section \<open>Triangulation\<close>

definition center :: "'n arith \<Rightarrow> 'n rect \<Rightarrow> 'n point" where
  "center A r = \<lparr> pt_x = nadd A (rect_x r) (ndiv A (rect_width r) (nlit A 2)),
                  pt_y = nadd A (rect_y r) (ndiv A (rect_height r) (nlit A 2)) \<rparr>"

definition sentinel :: "'n arith \<Rightarrow> 'n position" where
  "sentinel A = \<lparr> pos_x = nlit A 0, pos_y = nlit A 0, pos_z = nlit A (- 1) \<rparr>"

text \<open>The body of the loop over the correspondences, for one pair of centers.\<close>

definition triangulate :: "('m, 'n) env \<Rightarrow> 'n point \<Rightarrow> 'n point \<Rightarrow> 'n position" where
  "triangulate E ptL ptR =
     (let A = js E;
          d = nsub A (pt_x ptL) (pt_x ptR)
      in if le A d (nlit A 0) then sentinel A
         else
           let fx = cameraMatrix1 E 0 0;
               fy = cameraMatrix1 E 1 1;
               cx = cameraMatrix1 E 0 2;
               cy = cameraMatrix1 E 1 2;
               B = nabs A (T E 0 0);
               Z = ndiv A (nmul A fx B) d;
               X = ndiv A (nmul A (nsub A (pt_x ptL) cx) Z) fx;
               Y = ndiv A (nmul A (nsub A (pt_y ptL) cy) Z) fy
           in \<lparr> pos_x = X, pos_y = Y, pos_z = Z \<rparr>)"

text \<open>\<open>for (let i = 0; i < numDetected; i++)\<close>, pushing one entry per index.\<close>

function triangulateLoop ::
  "('m, 'n) env \<Rightarrow> 'n point list \<Rightarrow> 'n point list \<Rightarrow> nat \<Rightarrow> nat \<Rightarrow> 'n position list
     \<Rightarrow> 'n position list" where
  "triangulateLoop E centersL centersR numDetected i result3D =
     (if i < numDetected
      then triangulateLoop E centersL centersR numDetected (i + 1)
             (result3D @ [triangulate E (centersL ! i) (centersR ! i)])
      else result3D)"
  by pat_completeness auto
termination
  by (relation "measure (\<lambda>(E, cl, cr, n, i, r). n - i)") auto

declare triangulateLoop.simps [simp del]

text \<open>\<open>for (let k = result3D.length; k < 6; k++)\<close>, pushing the dummy entry.\<close>

function padLoop :: "'n arith \<Rightarrow> nat \<Rightarrow> 'n position list \<Rightarrow> 'n position list" where
  "padLoop A k result3D =
     (if k < 6 then padLoop A (k + 1) (result3D @ [sentinel A]) else result3D)"
  by pat_completeness auto
termination
  by (relation "measure (\<lambda>(A, k, r). 6 - k)") auto

declare padLoop.simps [simp del]

text \<open>Steps (D) and (E) and the padding: from the two detection lists to \<open>result3D\<close>.\<close>

definition result3D :: "('m, 'n) env \<Rightarrow> 'n rect list \<Rightarrow> 'n rect list \<Rightarrow> 'n position list" where
  "result3D E foundL foundR =
     (let centersL = map (center (js E)) foundL;
          centersR = map (center (js E)) foundR;
          numDetected = min (min (length centersL) (length centersR)) 6;
          r = triangulateLoop E centersL centersR numDetected 0 []
      in padLoop (js E) (length r) r)"

section \<open>The reconstruction pipeline and the broadcast\<close>

type_synonym ('a, 'm, 'n) prog = "('m, 'n) server \<Rightarrow> (error + 'a) \<times> ('m, 'n) server"

definition cvcall :: "'m cv_call \<Rightarrow> error + 'a \<Rightarrow> ('a, 'm, 'n) prog" where
  "cvcall c r st = (r, st\<lparr>calls := calls st @ [c]\<rparr>)"

definition andThen :: "('a, 'm, 'n) prog \<Rightarrow> ('a \<Rightarrow> ('b, 'm, 'n) prog) \<Rightarrow> ('b, 'm, 'n) prog" where
  "andThen p f st = (case p st of (Inl e, st') \<Rightarrow> (Inl e, st') | (Inr a, st') \<Rightarrow> f a st')"

text \<open>\<open>for (const [cli, r] of clients.entries())\<close>: an exception of \<open>send\<close> leaves the loop;
  a \<open>send\<close> that returns is followed by the next client, whether its write fails or not.\<close>

fun broadcast ::
  "('m, 'n) env \<Rightarrow> 'n payload \<Rightarrow> (sock \<times> role) list \<Rightarrow> (unit, 'm, 'n) prog" where
  "broadcast E p [] st = (Inr (), st)"
| "broadcast E p ((cli, r) # rest) st =
     (if readyState st cli = OPEN
      then (case send E cli p of
              Thrown e \<Rightarrow> (Inl e, st)
            | _ \<Rightarrow> broadcast E p rest (st\<lparr>sent := sent st @ [(cli, p)]\<rparr>))
      else broadcast E p rest st)"

text \<open>The body of the \<open>try\<close> block of \<open>processStereoPair\<close>. \<open>R1\<close>, \<open>P1\<close>, \<open>R2\<close>, \<open>P2\<close> are the
  constants of the module, read from the state.\<close>

definition tryBlock :: "('m, 'n) env \<Rightarrow> 'm \<Rightarrow> 'm \<Rightarrow> (unit, 'm, 'n) prog" where
  "tryBlock E imgLeftColor imgRightColor =
     andThen (cvcall BgrToGray (bgrToGray E imgLeftColor)) (\<lambda>grayL.
     andThen (cvcall BgrToGray (bgrToGray E imgRightColor)) (\<lambda>grayR.
     andThen (\<lambda>st. cvcall (InitUndistortRectifyMap Cam1 (R1 (rectification st)) (P1 (rectification st)))
                  (initUndistortRectifyMap E Cam1 (R1 (rectification st)) (P1 (rectification st))) st)
       (\<lambda>mapL.
     andThen (\<lambda>st. cvcall (InitUndistortRectifyMap Cam2 (R2 (rectification st)) (P2 (rectification st)))
                  (initUndistortRectifyMap E Cam2 (R2 (rectification st)) (P2 (rectification st))) st)
       (\<lambda>mapR.
     andThen (cvcall Remap (remap E grayL mapL)) (\<lambda>rectL.
     andThen (cvcall Remap (remap E grayR mapR)) (\<lambda>rectR.
     andThen (cvcall StereoBMCompute (stereoBM_compute E rectL rectR)) (\<lambda>disp.
     andThen (cvcall Remap (remap E imgLeftColor mapL)) (\<lambda>rectLColor.
     andThen (cvcall Remap (remap E imgRightColor mapR)) (\<lambda>rectRColor.
     andThen (cvcall DetectMultiScale (detectMultiScale E rectLColor)) (\<lambda>foundL.
     andThen (cvcall DetectMultiScale (detectMultiScale E rectRColor)) (\<lambda>foundR.
     (\<lambda>st. broadcast E
        \<lparr> payload_type = ''3d_positions'', payload_data = result3D E foundL foundR \<rparr>
        (clients st) st))))))))))))"

text \<open>\<open>processStereoPair\<close> has no \<open>await\<close>: it runs to its end inside the call, and its
  \<open>catch\<close> logs whatever the block throws.\<close>

definition processStereoPair :: "('m, 'n) env \<Rightarrow> 'm \<Rightarrow> 'm \<Rightarrow> ('m, 'n) server \<Rightarrow> ('m, 'n) server" where
  "processStereoPair E imgLeftColor imgRightColor st =
     (case tryBlock E imgLeftColor imgRightColor st of
        (Inl err, st') \<Rightarrow> st'\<lparr>caught := caught st' @ [err]\<rparr>
      | (Inr _, st') \<Rightarrow> st')"

section \<open>Pairing\<close>

definition MAX_SAFE_INTEGER :: int where
  "MAX_SAFE_INTEGER = 9007199254740991"

text \<open>The scan of the back buffer, carrying \<open>bestIdx\<close> and \<open>smallestDt\<close>.\<close>

function scanBack :: "'m frame list \<Rightarrow> int \<Rightarrow> nat \<Rightarrow> int \<times> int \<Rightarrow> int \<times> int" where
  "scanBack backBuf frontTs i (bestIdx, smallestDt) =
     (if i < length backBuf
      then (let dt = \<bar>timestamp (backBuf ! i) - frontTs\<bar>
            in if dt < smallestDt
               then scanBack backBuf frontTs (i + 1) (int i, dt)
               else scanBack backBuf frontTs (i + 1) (bestIdx, smallestDt))
      else (bestIdx, smallestDt))"
  by pat_completeness auto
termination
  by (relation "measure (\<lambda>(b, t, i, acc). length b - i)") auto

declare scanBack.simps [simp del]

text \<open>\<open>xs.splice(start, 1)\<close>: a negative start counts from the end; the result is the
  list of removed elements and the remaining array.\<close>

definition splice1 :: "'a list \<Rightarrow> int \<Rightarrow> 'a list \<times> 'a list" where
  "splice1 xs start =
     (let n = int (length xs);
          s = nat (if start < 0 then max (n + start) 0 else min start n)
      in (take 1 (drop s xs), take s xs @ drop (s + 1) xs))"

definition attemptStereoPair :: "('m, 'n) env \<Rightarrow> ('m, 'n) server \<Rightarrow> ('m, 'n) server" where
  "attemptStereoPair E st =
     (case (frameBuffers st Front, frameBuffers st Back) of
        ([], _) \<Rightarrow> st
      | (_ # _, []) \<Rightarrow> st
      | (frontFrame # frontRest, backBuf) \<Rightarrow>
          (let (bestIdx, smallestDt) =
                 scanBack backBuf (timestamp frontFrame) 0 (- 1, MAX_SAFE_INTEGER)
           in if smallestDt > 200
              then st\<lparr>frameBuffers := (frameBuffers st)(Front := frontRest)\<rparr>
              else
                (case splice1 backBuf bestIdx of
                   ([], backRest) \<Rightarrow>
                     st\<lparr>frameBuffers := (frameBuffers st)(Back := backRest, Front := frontRest),
                        uncaught := uncaught st @ [Error ''TypeError'']\<rparr>
                 | (backFrame # _, backRest) \<Rightarrow>
                     processStereoPair E (matColor frontFrame) (matColor backFrame)
                       (st\<lparr>frameBuffers := (frameBuffers st)(Back := backRest, Front := frontRest)\<rparr>))))"

section \<open>The connection handlers\<close>

definition on_connection :: "sock \<Rightarrow> ('m, 'n) server \<Rightarrow> ('m, 'n) server" where
  "on_connection socket st = st\<lparr>myRole := (myRole st)(socket := None)\<rparr>"

definition role_of :: "string \<Rightarrow> role option" where
  "role_of s = (if s = ''front'' then Some Front else if s = ''back'' then Some Back else None)"

text \<open>The message handler; \<open>None\<close> is data that \<open>JSON.parse\<close> rejects. The handler logs a
  parse error and a decoding error and returns.\<close>

definition on_message ::
  "('m, 'n) env \<Rightarrow> sock \<Rightarrow> msg option \<Rightarrow> ('m, 'n) server \<Rightarrow> ('m, 'n) server" where
  "on_message E socket data st =
     (case data of
        None \<Rightarrow> st\<lparr>caught := caught st @ [Error ''JSON parse error'']\<rparr>
      | Some m \<Rightarrow>
          if msg_type m = ''role''
          then (case role_of (msg_role m) of
                  Some r \<Rightarrow> st\<lparr>myRole := (myRole st)(socket \<mapsto> r),
                              clients := AList.update socket r (clients st)\<rparr>
                | None \<Rightarrow> st)
          else
            (case (msg_type m = ''frame'', myRole st socket) of
               (True, Some r) \<Rightarrow>
                 (case imdecode E (msg_img m) of
                    Inl err \<Rightarrow> st\<lparr>caught := caught st @ [err]\<rparr>
                  | Inr mat \<Rightarrow>
                      attemptStereoPair E
                        (st\<lparr>frameBuffers := (frameBuffers st)
                              (r := frameBuffers st r @
                                 [\<lparr> seq = msg_seq m, timestamp = msg_timestamp m, matColor = mat \<rparr>])\<rparr>))
             | _ \<Rightarrow> st))"

definition on_close :: "sock \<Rightarrow> ('m, 'n) server \<Rightarrow> ('m, 'n) server" where
  "on_close socket st = st\<lparr>clients := AList.delete socket (clients st)\<rparr>"

subsection \<open>Runs of the process\<close>

text \<open>
  The process is single-threaded: it handles one event after the other, each handler
  running to its end. A socket's \<open>readyState\<close> is changed by the socket library, not by
  the handlers, so that change is an event of its own.
\<close>

datatype event =
    SocketState sock ready_state
  | Connection sock
  | Message sock "msg option"
  | Close sock

fun step :: "('m, 'n) env \<Rightarrow> event \<Rightarrow> ('m, 'n) server \<Rightarrow> ('m, 'n) server" where
  "step E (SocketState socket rs) st = st\<lparr>readyState := (readyState st)(socket := rs)\<rparr>"
| "step E (Connection socket) st = on_connection socket st"
| "step E (Message socket data) st = on_message E socket data st"
| "step E (Close socket) st = on_close socket st"

definition run :: "('m, 'n) env \<Rightarrow> event list \<Rightarrow> ('m, 'n) server \<Rightarrow> ('m, 'n) server" where
  "run E evs st = foldl (\<lambda>s ev. step E ev s) st evs"

subsection \<open>Derived notions used to state the properties\<close>

text \<open>The library calls of steps (A) to (C) of \<open>processStereoPair\<close>, without the record of
  the calls: the two detection lists, or the first exception together with the number
  of calls made up to and including the one that threw. The second argument is the
  result of \<open>stereoRectify\<close> that the maps are computed from.\<close>

definition orElse :: "nat \<Rightarrow> error + 'a \<Rightarrow> ('a \<Rightarrow> (error \<times> nat) + 'b) \<Rightarrow> (error \<times> nat) + 'b" where
  "orElse k r f = (case r of Inl e \<Rightarrow> Inl (e, k) | Inr a \<Rightarrow> f a)"

definition detections ::
  "('m, 'n) env \<Rightarrow> 'm rectify_result \<Rightarrow> 'm \<Rightarrow> 'm \<Rightarrow>
     (error \<times> nat) + ('n rect list \<times> 'n rect list)" where
  "detections E rc imgLeftColor imgRightColor =
     orElse 1 (bgrToGray E imgLeftColor) (\<lambda>grayL.
     orElse 2 (bgrToGray E imgRightColor) (\<lambda>grayR.
     orElse 3 (initUndistortRectifyMap E Cam1 (R1 rc) (P1 rc)) (\<lambda>mapL.
     orElse 4 (initUndistortRectifyMap E Cam2 (R2 rc) (P2 rc)) (\<lambda>mapR.
     orElse 5 (remap E grayL mapL) (\<lambda>rectL.
     orElse 6 (remap E grayR mapR) (\<lambda>rectR.
     orElse 7 (stereoBM_compute E rectL rectR) (\<lambda>disp.
     orElse 8 (remap E imgLeftColor mapL) (\<lambda>rectLColor.
     orElse 9 (remap E imgRightColor mapR) (\<lambda>rectRColor.
     orElse 10 (detectMultiScale E rectLColor) (\<lambda>foundL.
     orElse 11 (detectMultiScale E rectRColor) (\<lambda>foundR.
     Inr (foundL, foundR))))))))))))"

text \<open>The calls of a reconstruction that reaches the broadcast, in their order.\<close>

definition pipeline_calls :: "'m rectify_result \<Rightarrow> 'm cv_call list" where
  "pipeline_calls rc = [BgrToGray, BgrToGray, InitUndistortRectifyMap Cam1 (R1 rc) (P1 rc),
     InitUndistortRectifyMap Cam2 (R2 rc) (P2 rc), Remap, Remap, StereoBMCompute, Remap, Remap,
     DetectMultiScale, DetectMultiScale]"

definition positions_message :: "('m, 'n) env \<Rightarrow> 'n rect list \<Rightarrow> 'n rect list \<Rightarrow> 'n payload" where
  "positions_message E foundL foundR =
     \<lparr> payload_type = ''3d_positions'', payload_data = result3D E foundL foundR \<rparr>"

text \<open>The open sockets of the client map, in its order.\<close>

definition open_clients :: "('m, 'n) server \<Rightarrow> (sock \<times> role) list \<Rightarrow> sock list" where
  "open_clients st cs = map fst (filter (\<lambda>(cli, r). readyState st cli = OPEN) cs)"

text \<open>The messages whose \<open>send\<close> returned and whose write did not fail.\<close>

definition delivered :: "('m, 'n) env \<Rightarrow> ('m, 'n) server \<Rightarrow> (sock \<times> 'n payload) list" where
  "delivered E st = filter (\<lambda>(cli, p). send E cli p = Sent) (sent st)"

text \<open>The result frame of a pair of images: the detections of the two images succeed, and
  the message carries the triangulations of their boxes paired index by index, in the
  order of the detections and six at most, followed by sentinels up to six.\<close>

definition frame_of ::
  "('m, 'n) env \<Rightarrow> 'm rectify_result \<Rightarrow> 'm \<Rightarrow> 'm \<Rightarrow> 'n payload \<Rightarrow> bool" where
  "frame_of E rc imgLeftColor imgRightColor p =
     (case detections E rc imgLeftColor imgRightColor of
        Inl failure \<Rightarrow> False
      | Inr (foundL, foundR) \<Rightarrow>
          payload_type p = ''3d_positions''
          \<and> payload_data p =
                map (\<lambda>(boxL, boxR). triangulate E (center (js E) boxL) (center (js E) boxR))
                    (take 6 (zip foundL foundR))
                @ replicate (6 - length (take 6 (zip foundL foundR))) (sentinel (js E)))"

text \<open>The images decoded from the frame messages of a list of events.\<close>

fun decoded :: "('m, 'n) env \<Rightarrow> event list \<Rightarrow> 'm list" where
  "decoded E [] = []"
| "decoded E (Message socket (Some m) # evs) =
     (if msg_type m = ''frame''
      then (case imdecode E (msg_img m) of
              Inl err \<Rightarrow> decoded E evs
            | Inr mat \<Rightarrow> mat # decoded E evs)
      else decoded E evs)"
| "decoded E (ev # evs) = decoded E evs"

text \<open>The time difference the scan computes for a back frame.\<close>

definition dt_of :: "'m frame \<Rightarrow> 'm frame \<Rightarrow> int" where
  "dt_of frontFrame b = \<bar>timestamp b - timestamp frontFrame\<bar>"

section \<open>Concrete inputs\<close>

text \<open>
  A library that always succeeds, over images named by numbers and the arithmetic of
  the reals: decoding names an image by the length of its data, the person detector
  finds one box in image 1 and one in every other image, and every \<open>send\<close> returns and
  writes. The intrinsics are \<open>fx = fy = 600\<close>, \<open>cx = 160\<close>, \<open>cy = 120\<close>, and \<open>T\<close> starts with
  \<open>-0.1\<close>.
\<close>

definition example_env :: "(nat, real) env" where
  "example_env =
     \<lparr> js = real_arith,
       cameraMatrix1 = (\<lambda>i j. if i = j then (if i = 2 then 1 else 600)
                              else if j = 2 then (if i = 0 then 160 else 120) else 0),
       T = (\<lambda>i j. if j = 0 then - (1 / 10) else 0),
       stereoRectify = \<lparr> R1 = 11, R2 = 12, P1 = 21, P2 = 22, Q = 30 \<rparr>,
       imdecode = (\<lambda>s. Inr (length s)),
       bgrToGray = Inr,
       initUndistortRectifyMap = (\<lambda>c R P. Inr (R, P)),
       remap = (\<lambda>m mp. Inr m),
       stereoBM_compute = (\<lambda>a b. Inr a),
       detectMultiScale = (\<lambda>m. Inr [\<lparr> rect_x = (if m = 1 then 170 else 150), rect_y = 100,
                                         rect_width = 20, rect_height = 40 \<rparr>]),
       send = (\<lambda>c p. Sent) \<rparr>"

text \<open>The same library, except that the write of every \<open>send\<close> on socket 2 fails.\<close>

definition failing_env :: "(nat, real) env" where
  "failing_env = example_env\<lparr>send := (\<lambda>c p. if c = 2 then Failed else Sent)\<rparr>"

text \<open>A front frame at 1000 ms with back frames at 900, 1150 and 1300 ms, and the same
  front frame with one back frame at 1300 ms.\<close>

definition near_buffers :: "(nat, real) server" where
  "near_buffers = (startup example_env)\<lparr>frameBuffers := (\<lambda>r. case r of
       Front \<Rightarrow> [\<lparr> seq = 1, timestamp = 1000, matColor = 1 \<rparr>]
     | Back \<Rightarrow> [\<lparr> seq = 1, timestamp = 900, matColor = 2 \<rparr>,
                \<lparr> seq = 2, timestamp = 1150, matColor = 3 \<rparr>,
                \<lparr> seq = 3, timestamp = 1300, matColor = 4 \<rparr>])\<rparr>"

definition stale_buffers :: "(nat, real) server" where
  "stale_buffers = (startup example_env)\<lparr>frameBuffers := (\<lambda>r. case r of
       Front \<Rightarrow> [\<lparr> seq = 1, timestamp = 1000, matColor = 1 \<rparr>]
     | Back \<Rightarrow> [\<lparr> seq = 1, timestamp = 1300, matColor = 2 \<rparr>])\<rparr>"

text \<open>Messages: a registration, and a frame whose image data has the given length.\<close>

definition role_msg :: "string \<Rightarrow> msg" where
  "role_msg r = \<lparr> msg_type = ''role'', msg_role = r, msg_seq = 0, msg_timestamp = 0, msg_img = [] \<rparr>"

definition frame_msg :: "int \<Rightarrow> int \<Rightarrow> nat \<Rightarrow> msg" where
  "frame_msg s t n = \<lparr> msg_type = ''frame'', msg_role = [], msg_seq = s, msg_timestamp = t,
     msg_img = replicate n (CHR ''A'') \<rparr>"

text \<open>Four sockets open and connect. Socket 1 registers as front, sockets 2 and 3 as
  back; socket 4 registers nothing and only listens.\<close>

definition registration :: "event list" where
  "registration =
     [SocketState 1 OPEN, Connection 1, SocketState 2 OPEN, Connection 2,
      SocketState 3 OPEN, Connection 3, SocketState 4 OPEN, Connection 4,
      Message 1 (Some (role_msg ''front'')), Message 2 (Some (role_msg ''back'')),
      Message 3 (Some (role_msg ''back''))]"

text \<open>Then sockets 1 and 2 send one frame each, 50 ms apart.\<close>

definition one_pair :: "event list" where
  "one_pair = registration @
     [Message 1 (Some (frame_msg 1 1000 1)), Message 2 (Some (frame_msg 1 1050 2))]"

text \<open>The same, followed by a second frame from each camera.\<close>

definition two_pairs :: "event list" where
  "two_pairs = one_pair @
     [Message 1 (Some (frame_msg 2 2000 1)), Message 2 (Some (frame_msg 2 2050 2))]"

text \<open>The message that the example library's detections give rise to.\<close>

definition example_message :: "real payload" where
  "example_message = \<lparr> payload_type = ''3d_positions'', payload_data =
     [\<lparr> pos_x = 1 / 10, pos_y = 0, pos_z = 3 \<rparr>,
      \<lparr> pos_x = 0, pos_y = 0, pos_z = - 1 \<rparr>, \<lparr> pos_x = 0, pos_y = 0, pos_z = - 1 \<rparr>,
      \<lparr> pos_x = 0, pos_y = 0, pos_z = - 1 \<rparr>, \<lparr> pos_x = 0, pos_y = 0, pos_z = - 1 \<rparr>,
      \<lparr> pos_x = 0, pos_y = 0, pos_z = - 1 \<rparr>] \<rparr>"

section \<open>The loops in closed form\<close>

lemma triangulateLoop_eq:
  "i \<le> n \<Longrightarrow> triangulateLoop E cl cr n i r =
     r @ map (\<lambda>j. triangulate E (cl ! j) (cr ! j)) [i..<n]"
proof (induction E cl cr n i r rule: triangulateLoop.induct)
  case (1 E cl cr n i r)
  show ?case
  proof (cases "i < n")
    case True
    then have "[i..<n] = i # [i + 1..<n]" by (simp add: upt_conv_Cons)
    with True 1 show ?thesis by (subst triangulateLoop.simps) simp
  next
    case False
    with 1 show ?thesis by (subst triangulateLoop.simps) simp
  qed
qed

lemma padLoop_eq: "padLoop A k r = r @ replicate (6 - k) (sentinel A)"
proof (induction A k r rule: padLoop.induct)
  case (1 A k r)
  show ?case
  proof (cases "k < 6")
    case True
    then have "replicate (6 - k) (sentinel A) = sentinel A # replicate (6 - (k + 1)) (sentinel A)"
      by (cases "6 - k") auto
    with True 1 show ?thesis by (subst padLoop.simps) simp
  next
    case False
    then show ?thesis by (subst padLoop.simps) simp
  qed
qed

lemma result3D_eq:
  "result3D E foundL foundR =
     map (\<lambda>i. triangulate E (center (js E) (foundL ! i)) (center (js E) (foundR ! i)))
       [0..<min (min (length foundL) (length foundR)) 6]
     @ replicate (6 - min (min (length foundL) (length foundR)) 6) (sentinel (js E))"
  by (simp add: result3D_def triangulateLoop_eq padLoop_eq Let_def cong: map_cong)

lemma length_result3D: "length (result3D E foundL foundR) = 6"
  by (simp add: result3D_eq)

text \<open>The scan either keeps its starting pair, when no later difference is smaller, or
  ends on the first index that attains the least difference.\<close>

lemma scanBack_cases:
  "scanBack b ft i (bi, sd) = (bi', sd') \<Longrightarrow>
     (bi' = bi \<and> sd' = sd \<and> (\<forall>j. i \<le> j \<and> j < length b \<longrightarrow> sd \<le> \<bar>timestamp (b ! j) - ft\<bar>))
     \<or> (\<exists>k. i \<le> k \<and> k < length b \<and> bi' = int k \<and> sd' = \<bar>timestamp (b ! k) - ft\<bar>
            \<and> sd' < sd
            \<and> (\<forall>j. i \<le> j \<and> j < k \<longrightarrow> sd' < \<bar>timestamp (b ! j) - ft\<bar>)
            \<and> (\<forall>j. k \<le> j \<and> j < length b \<longrightarrow> sd' \<le> \<bar>timestamp (b ! j) - ft\<bar>))"
proof (induction n \<equiv> "length b - i" arbitrary: i bi sd)
  case 0
  then have "\<not> i < length b" by simp
  with "0.prems" show ?case by (subst (asm) scanBack.simps) simp
next
  case (Suc n)
  let ?d = "\<lambda>j. \<bar>timestamp (b ! j) - ft\<bar>"
  from Suc.hyps(2) have len: "i < length b" and n: "n = length b - (i + 1)" by simp_all
  have split: "\<And>j. i \<le> j \<longleftrightarrow> j = i \<or> i + 1 \<le> j" by auto
  show ?case
  proof (cases "?d i < sd")
    case True
    with len Suc.prems have "scanBack b ft (i + 1) (int i, ?d i) = (bi', sd')"
      by (subst (asm) scanBack.simps) (simp add: Let_def)
    from Suc.hyps(1)[OF n this]
    show ?thesis
    proof (elim disjE exE conjE)
      assume "bi' = int i" "sd' = ?d i"
        "\<forall>j. i + 1 \<le> j \<and> j < length b \<longrightarrow> ?d i \<le> ?d j"
      with True len have "i \<le> i \<and> i < length b \<and> bi' = int i \<and> sd' = ?d i \<and> sd' < sd
          \<and> (\<forall>j. i \<le> j \<and> j < i \<longrightarrow> sd' < ?d j)
          \<and> (\<forall>j. i \<le> j \<and> j < length b \<longrightarrow> sd' \<le> ?d j)"
        by (auto simp: split)
      then show ?thesis by blast
    next
      fix k assume k: "i + 1 \<le> k" "k < length b" "bi' = int k" "sd' = ?d k" "sd' < ?d i"
        "\<forall>j. i + 1 \<le> j \<and> j < k \<longrightarrow> sd' < ?d j"
        "\<forall>j. k \<le> j \<and> j < length b \<longrightarrow> sd' \<le> ?d j"
      with True have "i \<le> k \<and> k < length b \<and> bi' = int k \<and> sd' = ?d k \<and> sd' < sd
          \<and> (\<forall>j. i \<le> j \<and> j < k \<longrightarrow> sd' < ?d j)
          \<and> (\<forall>j. k \<le> j \<and> j < length b \<longrightarrow> sd' \<le> ?d j)"
        by (auto simp: split)
      then show ?thesis by blast
    qed
  next
    case False
    with len Suc.prems have "scanBack b ft (i + 1) (bi, sd) = (bi', sd')"
      by (subst (asm) scanBack.simps) (simp add: Let_def)
    from Suc.hyps(1)[OF n this]
    show ?thesis
    proof (elim disjE exE conjE)
      assume "bi' = bi" "sd' = sd"
        "\<forall>j. i + 1 \<le> j \<and> j < length b \<longrightarrow> sd \<le> ?d j"
      with False have "bi' = bi \<and> sd' = sd \<and> (\<forall>j. i \<le> j \<and> j < length b \<longrightarrow> sd \<le> ?d j)"
        by (auto simp: split)
      then show ?thesis by blast
    next
      fix k assume k: "i + 1 \<le> k" "k < length b" "bi' = int k" "sd' = ?d k" "sd' < sd"
        "\<forall>j. i + 1 \<le> j \<and> j < k \<longrightarrow> sd' < ?d j"
        "\<forall>j. k \<le> j \<and> j < length b \<longrightarrow> sd' \<le> ?d j"
      with False have "i \<le> k \<and> k < length b \<and> bi' = int k \<and> sd' = ?d k \<and> sd' < sd
          \<and> (\<forall>j. i \<le> j \<and> j < k \<longrightarrow> sd' < ?d j)
          \<and> (\<forall>j. k \<le> j \<and> j < length b \<longrightarrow> sd' \<le> ?d j)"
        by (auto simp: split)
      then show ?thesis by blast
    qed
  qed
qed

section \<open>The broadcast loop and the pipeline in closed form\<close>

lemma broadcast_sent_acc:
  "\<forall>c \<in> set (open_clients st cs). \<forall>e. send E c p \<noteq> Thrown e \<Longrightarrow>
   broadcast E p cs (st\<lparr>sent := xs\<rparr>) =
     (Inr (), st\<lparr>sent := xs @ map (\<lambda>c. (c, p)) (open_clients st cs)\<rparr>)"
proof (induction cs arbitrary: xs)
  case Nil
  then show ?case by (simp add: open_clients_def)
next
  case (Cons a cs)
  obtain cli r where a: "a = (cli, r)" by (cases a)
  from Cons.prems have rest: "\<forall>c \<in> set (open_clients st cs). \<forall>e. send E c p \<noteq> Thrown e"
    by (auto simp: open_clients_def a)
  show ?case
  proof (cases "readyState st cli = OPEN")
    case True
    with Cons.prems have "\<forall>e. send E cli p \<noteq> Thrown e" by (simp add: open_clients_def a)
    with True Cons.IH[OF rest, of "xs @ [(cli, p)]"] show ?thesis
      by (simp add: a open_clients_def split: send_result.splits)
  next
    case False
    with Cons.IH[OF rest, of xs] show ?thesis by (simp add: a open_clients_def)
  qed
qed

lemma broadcast_ok:
  "\<forall>c \<in> set (open_clients st cs). \<forall>e. send E c p \<noteq> Thrown e \<Longrightarrow>
   broadcast E p cs st = (Inr (), st\<lparr>sent := sent st @ map (\<lambda>c. (c, p)) (open_clients st cs)\<rparr>)"
  using broadcast_sent_acc[where st = st and xs = "sent st"] by simp

text \<open>Whatever happens, a broadcast only appends copies of its message for open clients.\<close>

lemma broadcast_frame_acc:
  "\<exists>ys res. broadcast E p cs (st\<lparr>sent := xs\<rparr>) = (res, st\<lparr>sent := xs @ map (\<lambda>c. (c, p)) ys\<rparr>)
     \<and> set ys \<subseteq> set (open_clients st cs)"
proof (induction cs arbitrary: xs)
  case Nil
  have "broadcast E p [] (st\<lparr>sent := xs\<rparr>) = (Inr (), st\<lparr>sent := xs @ map (\<lambda>c. (c, p)) []\<rparr>)
    \<and> set [] \<subseteq> set (open_clients st [])"
    by simp
  then show ?case by blast
next
  case (Cons a cs)
  obtain cli r where a: "a = (cli, r)" by (cases a)
  show ?case
  proof (cases "readyState st cli = OPEN")
    case False
    from Cons.IH[of xs] obtain ys res where
      "broadcast E p cs (st\<lparr>sent := xs\<rparr>) = (res, st\<lparr>sent := xs @ map (\<lambda>c. (c, p)) ys\<rparr>)"
      "set ys \<subseteq> set (open_clients st cs)" by blast
    with False have "broadcast E p (a # cs) (st\<lparr>sent := xs\<rparr>) = (res, st\<lparr>sent := xs @ map (\<lambda>c. (c, p)) ys\<rparr>)
      \<and> set ys \<subseteq> set (open_clients st (a # cs))"
      by (auto simp: a open_clients_def)
    then show ?thesis by blast
  next
    case True
    show ?thesis
    proof (cases "\<exists>e. send E cli p = Thrown e")
      case thrown: True
      then obtain e where "send E cli p = Thrown e" by blast
      with True have "broadcast E p (a # cs) (st\<lparr>sent := xs\<rparr>) = (Inl e, st\<lparr>sent := xs @ map (\<lambda>c. (c, p)) []\<rparr>)
        \<and> set [] \<subseteq> set (open_clients st (a # cs))"
        by (simp add: a)
      then show ?thesis by blast
    next
      case returns: False
      from Cons.IH[of "xs @ [(cli, p)]"] obtain ys res where
        "broadcast E p cs (st\<lparr>sent := xs @ [(cli, p)]\<rparr>) = (res, st\<lparr>sent := (xs @ [(cli, p)]) @ map (\<lambda>c. (c, p)) ys\<rparr>)"
        "set ys \<subseteq> set (open_clients st cs)" by blast
      with True returns have "broadcast E p (a # cs) (st\<lparr>sent := xs\<rparr>) = (res, st\<lparr>sent := xs @ map (\<lambda>c. (c, p)) (cli # ys)\<rparr>)
        \<and> set (cli # ys) \<subseteq> set (open_clients st (a # cs))"
        by (auto simp: a open_clients_def split: send_result.splits)
      then show ?thesis by blast
    qed
  qed
qed

lemma broadcast_frame:
  "\<exists>ys res. broadcast E p cs st = (res, st\<lparr>sent := sent st @ map (\<lambda>c. (c, p)) ys\<rparr>)
     \<and> set ys \<subseteq> set (open_clients st cs)"
  using broadcast_frame_acc[where st = st and xs = "sent st"] by simp

lemma tryBlock_eq:
  "tryBlock E l r st =
     (case detections E (rectification st) l r of
        Inl (e, k) \<Rightarrow> (Inl e, st\<lparr>calls := calls st @ take k (pipeline_calls (rectification st))\<rparr>)
      | Inr (foundL, foundR) \<Rightarrow>
          broadcast E (positions_message E foundL foundR) (clients st)
            (st\<lparr>calls := calls st @ pipeline_calls (rectification st)\<rparr>))"
  unfolding tryBlock_def detections_def andThen_def cvcall_def orElse_def pipeline_calls_def
    positions_message_def
  by (simp split: sum.splits)

lemma processStereoPair_eq:
  "processStereoPair E l r st =
     (case detections E (rectification st) l r of
        Inl (e, k) \<Rightarrow> st\<lparr>calls := calls st @ take k (pipeline_calls (rectification st)),
                         caught := caught st @ [e]\<rparr>
      | Inr (foundL, foundR) \<Rightarrow>
          (case broadcast E (positions_message E foundL foundR) (clients st)
                  (st\<lparr>calls := calls st @ pipeline_calls (rectification st)\<rparr>) of
             (Inl e, st') \<Rightarrow> st'\<lparr>caught := caught st' @ [e]\<rparr>
           | (Inr u, st') \<Rightarrow> st'))"
  by (simp add: processStereoPair_def tryBlock_eq split: sum.splits prod.splits)

text \<open>What a reconstruction may change: the record of calls, of sends and of caught
  exceptions. Buffers, client map, roles, socket states and the constants of the module
  stay as they are, and no exception escapes. What it sends is the message of the
  detections of its two images.\<close>

lemma processStereoPair_frame:
  "\<exists>k ys errs. processStereoPair E l r st =
       st\<lparr>calls := calls st @ take k (pipeline_calls (rectification st)),
          sent := sent st @ ys,
          caught := caught st @ errs\<rparr>
     \<and> (\<forall>(c, p) \<in> set ys. c \<in> set (open_clients st (clients st))
           \<and> (\<exists>foundL foundR. detections E (rectification st) l r = Inr (foundL, foundR)
                 \<and> p = positions_message E foundL foundR))"
proof (cases "detections E (rectification st) l r")
  case (Inl a)
  obtain e k where a: "a = (e, k)" by (cases a)
  have "processStereoPair E l r st =
       st\<lparr>calls := calls st @ take k (pipeline_calls (rectification st)),
          sent := sent st @ [],
          caught := caught st @ [e]\<rparr>
     \<and> (\<forall>(c, p) \<in> set []. c \<in> set (open_clients st (clients st))
           \<and> (\<exists>foundL foundR. detections E (rectification st) l r = Inr (foundL, foundR)
                 \<and> p = positions_message E foundL foundR))"
    by (simp add: processStereoPair_eq Inl a)
  then show ?thesis by blast
next
  case (Inr b)
  obtain foundL foundR where b: "b = (foundL, foundR)" by (cases b)
  let ?p = "positions_message E foundL foundR"
  let ?st = "st\<lparr>calls := calls st @ pipeline_calls (rectification st)\<rparr>"
  from broadcast_frame[of E ?p "clients st" ?st] obtain ys res where
    bc: "broadcast E ?p (clients st) ?st = (res, ?st\<lparr>sent := sent ?st @ map (\<lambda>c. (c, ?p)) ys\<rparr>)"
    and ys: "set ys \<subseteq> set (open_clients ?st (clients st))" by blast
  have oc: "open_clients ?st (clients st) = open_clients st (clients st)"
    by (simp add: open_clients_def)
  have tk: "take 11 (pipeline_calls (rectification st)) = pipeline_calls (rectification st)"
    by (simp add: pipeline_calls_def)
  have "processStereoPair E l r st =
       st\<lparr>calls := calls st @ take 11 (pipeline_calls (rectification st)),
          sent := sent st @ map (\<lambda>c. (c, ?p)) ys,
          caught := caught st @ (case res of Inl e \<Rightarrow> [e] | Inr u \<Rightarrow> [])\<rparr>"
    by (simp add: processStereoPair_eq Inr b bc tk split: sum.splits)
  moreover from ys oc Inr b
  have "\<forall>(c, p) \<in> set (map (\<lambda>c. (c, ?p)) ys). c \<in> set (open_clients st (clients st))
           \<and> (\<exists>foundL foundR. detections E (rectification st) l r = Inr (foundL, foundR)
                 \<and> p = positions_message E foundL foundR)"
    by auto
  ultimately show ?thesis by blast
qed

lemma nth_splice1:
  "i < length xs \<Longrightarrow> splice1 xs (int i) = ([xs ! i], take i xs @ drop (Suc i) xs)"
  by (simp add: splice1_def Let_def take_Suc_conv_app_nth[symmetric] drop_Suc[symmetric]
      Cons_nth_drop_Suc[symmetric])

lemma scanBack_first_nearest:
  assumes i: "i < length b"
    and least: "\<forall>j < length b. \<bar>timestamp (b ! i) - ft\<bar> \<le> \<bar>timestamp (b ! j) - ft\<bar>"
    and first: "\<forall>j < i. \<bar>timestamp (b ! j) - ft\<bar> \<noteq> \<bar>timestamp (b ! i) - ft\<bar>"
    and small: "\<bar>timestamp (b ! i) - ft\<bar> < sd"
  shows "scanBack b ft 0 (bi, sd) = (int i, \<bar>timestamp (b ! i) - ft\<bar>)"
proof -
  let ?d = "\<lambda>j. \<bar>timestamp (b ! j) - ft\<bar>"
  obtain bi' sd' where res: "scanBack b ft 0 (bi, sd) = (bi', sd')"
    by (cases "scanBack b ft 0 (bi, sd)")
  from scanBack_cases[OF res] show ?thesis
  proof (elim disjE exE conjE)
    assume "\<forall>j. 0 \<le> j \<and> j < length b \<longrightarrow> sd \<le> ?d j"
    with i have "sd \<le> ?d i" by simp
    with small show ?thesis by simp
  next
    fix k assume k: "k < length b" "bi' = int k" "sd' = ?d k"
      and before: "\<forall>j. 0 \<le> j \<and> j < k \<longrightarrow> sd' < ?d j"
      and after: "\<forall>j. k \<le> j \<and> j < length b \<longrightarrow> sd' \<le> ?d j"
    have "k = i"
    proof (rule ccontr)
      assume "k \<noteq> i"
      then consider "k < i" | "i < k" by linarith
      then show False
      proof cases
        case 1
        with after i k have "?d k \<le> ?d i" by simp
        moreover from least k have "?d i \<le> ?d k" by simp
        ultimately show False using first 1 by auto
      next
        case 2
        with before k have "?d k < ?d i" by simp
        moreover from least k have "?d i \<le> ?d k" by simp
        ultimately show False by simp
      qed
    qed
    with k res show ?thesis by simp
  qed
qed

lemma scanBack_all_far:
  assumes far: "\<forall>j < length b. w < \<bar>timestamp (b ! j) - ft\<bar>" and sd: "w < sd"
  shows "w < snd (scanBack b ft 0 (bi, sd))"
proof -
  obtain bi' sd' where res: "scanBack b ft 0 (bi, sd) = (bi', sd')"
    by (cases "scanBack b ft 0 (bi, sd)")
  from scanBack_cases[OF res] far sd have "w < sd'" by auto
  with res show ?thesis by simp
qed

lemma processStereoPair_keeps:
  "frameBuffers (processStereoPair E l r st) = frameBuffers st"
  "clients (processStereoPair E l r st) = clients st"
  "myRole (processStereoPair E l r st) = myRole st"
  "readyState (processStereoPair E l r st) = readyState st"
  "rectification (processStereoPair E l r st) = rectification st"
  "uncaught (processStereoPair E l r st) = uncaught st"
proof -
  from processStereoPair_frame[of E l r st] obtain k ys errs where
    "processStereoPair E l r st =
       st\<lparr>calls := calls st @ take k (pipeline_calls (rectification st)),
          sent := sent st @ ys,
          caught := caught st @ errs\<rparr>" by blast
  then show "frameBuffers (processStereoPair E l r st) = frameBuffers st"
    "clients (processStereoPair E l r st) = clients st"
    "myRole (processStereoPair E l r st) = myRole st"
    "readyState (processStereoPair E l r st) = readyState st"
    "rectification (processStereoPair E l r st) = rectification st"
    "uncaught (processStereoPair E l r st) = uncaught st"
    by simp_all
qed

section \<open>Pairing: the claims\<close>

text \<open>
  Claim C1. When both buffers hold frames, the head \<open>f\<close> of the front buffer is paired
  with the back frame at the first index \<open>i\<close> whose time difference to \<open>f\<close> is least.
  When that difference is at most 200 ms, \<open>attemptStereoPair\<close> removes \<open>f\<close> from the front
  buffer and the back frame at index \<open>i\<close> from the back buffer, and hands the two images
  to \<open>processStereoPair\<close>; both buffers are otherwise as they were.
\<close>

theorem pairing_takes_first_nearest_back_frame:
  assumes front: "frameBuffers st Front = f # fs"
    and i: "i < length (frameBuffers st Back)"
    and least: "\<forall>j < length (frameBuffers st Back).
                  dt_of f (frameBuffers st Back ! i) \<le> dt_of f (frameBuffers st Back ! j)"
    and first: "\<forall>j < i. dt_of f (frameBuffers st Back ! j) \<noteq> dt_of f (frameBuffers st Back ! i)"
    and window: "dt_of f (frameBuffers st Back ! i) \<le> 200"
  shows "attemptStereoPair E st =
           processStereoPair E (matColor f) (matColor (frameBuffers st Back ! i))
             (st\<lparr>frameBuffers := (frameBuffers st)
                  (Back := take i (frameBuffers st Back) @ drop (Suc i) (frameBuffers st Back),
                   Front := fs)\<rparr>)
         \<and> frameBuffers (attemptStereoPair E st) Front = fs
         \<and> frameBuffers (attemptStereoPair E st) Back =
             take i (frameBuffers st Back) @ drop (Suc i) (frameBuffers st Back)"
proof -
  let ?b = "frameBuffers st Back"
  from i obtain b0 bs where b: "?b = b0 # bs" by (cases ?b) auto
  from window have "\<bar>timestamp (?b ! i) - timestamp f\<bar> < MAX_SAFE_INTEGER"
    by (simp add: dt_of_def MAX_SAFE_INTEGER_def)
  with i least first
  have scan: "scanBack ?b (timestamp f) 0 (- 1, MAX_SAFE_INTEGER)
                = (int i, \<bar>timestamp (?b ! i) - timestamp f\<bar>)"
    by (intro scanBack_first_nearest) (simp_all add: dt_of_def)
  from window have nd: "\<not> 200 < \<bar>timestamp (?b ! i) - timestamp f\<bar>"
    by (simp add: dt_of_def)
  have eq: "attemptStereoPair E st =
           processStereoPair E (matColor f) (matColor (?b ! i))
             (st\<lparr>frameBuffers := (frameBuffers st)
                  (Back := take i ?b @ drop (Suc i) ?b, Front := fs)\<rparr>)"
    unfolding attemptStereoPair_def front
    using scan nd nth_splice1[OF i] by (simp add: b[symmetric]) (simp add: b)
  then show ?thesis by (simp add: processStereoPair_keeps)
qed

text \<open>The example of the specification: front at 1000 ms, back at 900, 1150 and 1300 ms.
  The back frame at 900 ms is taken; 1150 and 1300 stay.\<close>

theorem pairing_takes_first_nearest_back_frame_witness:
  "dt_of \<lparr> seq = 1, timestamp = 1000, matColor = 1::nat \<rparr> (frameBuffers near_buffers Back ! 0) = 100
   \<and> frameBuffers (attemptStereoPair example_env near_buffers) Front = []
   \<and> frameBuffers (attemptStereoPair example_env near_buffers) Back =
       [\<lparr> seq = 2, timestamp = 1150, matColor = 3 \<rparr>, \<lparr> seq = 3, timestamp = 1300, matColor = 4 \<rparr>]
   \<and> attemptStereoPair example_env near_buffers =
       processStereoPair example_env 1 2
         (near_buffers\<lparr>frameBuffers := (frameBuffers near_buffers)
            (Back := [\<lparr> seq = 2, timestamp = 1150, matColor = 3 \<rparr>,
                      \<lparr> seq = 3, timestamp = 1300, matColor = 4 \<rparr>],
             Front := [])\<rparr>)"
  using pairing_takes_first_nearest_back_frame
    [of near_buffers "\<lparr> seq = 1, timestamp = 1000, matColor = 1 \<rparr>" "[]" 0 example_env]
  by (simp add: near_buffers_def startup_def dt_of_def All_less_Suc processStereoPair_keeps)

text \<open>
  Claim C2. When every back frame is more than 200 ms away from the head of the front
  buffer, \<open>attemptStereoPair\<close> removes that head and changes nothing else: the back
  buffer is as it was, no image reaches \<open>processStereoPair\<close>, nothing is sent.
\<close>

theorem stale_front_frame_is_dropped:
  assumes front: "frameBuffers st Front = f # fs"
    and nonempty: "frameBuffers st Back \<noteq> []"
    and far: "\<forall>b \<in> set (frameBuffers st Back). 200 < dt_of f b"
  shows "attemptStereoPair E st = st\<lparr>frameBuffers := (frameBuffers st)(Front := fs)\<rparr>"
proof -
  let ?b = "frameBuffers st Back"
  from nonempty obtain b0 bs where b: "?b = b0 # bs" by (cases ?b) auto
  from far have "\<forall>j < length ?b. 200 < \<bar>timestamp (?b ! j) - timestamp f\<bar>"
    by (simp add: dt_of_def)
  then have "200 < snd (scanBack ?b (timestamp f) 0 (- 1, MAX_SAFE_INTEGER))"
    by (rule scanBack_all_far) (simp add: MAX_SAFE_INTEGER_def)
  moreover obtain bi' sd' where res: "scanBack ?b (timestamp f) 0 (- 1, MAX_SAFE_INTEGER) = (bi', sd')"
    by (cases "scanBack ?b (timestamp f) 0 (- 1, MAX_SAFE_INTEGER)")
  ultimately have "200 < sd'" by simp
  with res[unfolded b] show ?thesis
    unfolding attemptStereoPair_def front by (simp add: b)
qed

text \<open>The example of the specification: front at 1000 ms, a single back frame at 1300 ms.\<close>

theorem stale_front_frame_is_dropped_witness:
  "frameBuffers stale_buffers Back \<noteq> []
   \<and> dt_of \<lparr> seq = 1, timestamp = 1000, matColor = 1::nat \<rparr> (frameBuffers stale_buffers Back ! 0) = 300
   \<and> frameBuffers (attemptStereoPair example_env stale_buffers) Front = []
   \<and> frameBuffers (attemptStereoPair example_env stale_buffers) Back =
       [\<lparr> seq = 1, timestamp = 1300, matColor = 2 \<rparr>]
   \<and> sent (attemptStereoPair example_env stale_buffers) = []
   \<and> calls (attemptStereoPair example_env stale_buffers) = [StereoRectify]"
  using stale_front_frame_is_dropped
    [of stale_buffers "\<lparr> seq = 1, timestamp = 1000, matColor = 1 \<rparr>" "[]" example_env]
  by (simp add: stale_buffers_def startup_def dt_of_def)

section \<open>Triangulation: the claims\<close>

lemma result3D_nth:
  "i < min (min (length foundL) (length foundR)) 6 \<Longrightarrow>
   result3D E foundL foundR ! i =
     triangulate E (center (js E) (foundL ! i)) (center (js E) (foundR ! i))"
  by (simp add: result3D_eq nth_append)

lemma result3D_nth_padding:
  "min (min (length foundL) (length foundR)) 6 \<le> i \<Longrightarrow> i < 6 \<Longrightarrow>
   result3D E foundL foundR ! i = sentinel (js E)"
  by (auto simp: result3D_eq nth_append)

text \<open>
  Claim C4. For a triangulated correspondence \<open>i\<close> whose disparity
  \<open>d = centerLeft.x - centerRight.x\<close> compares greater than 0, slot \<open>i\<close> of the result holds
  \<open>Z = fx * B / d\<close>, \<open>X = (centerLeft.x - cx) * Z / fx\<close> and \<open>Y = (centerLeft.y - cy) * Z / fy\<close>,
  with \<open>fx\<close>, \<open>fy\<close>, \<open>cx\<close>, \<open>cy\<close> read from \<open>cameraMatrix1\<close> and \<open>B\<close> the absolute value of the
  first entry of \<open>T\<close>; the products and quotients are those of the source, in its order.
\<close>

theorem positive_disparity_gives_pinhole_position:
  assumes "i < min (min (length foundL) (length foundR)) 6"
    and "A = js E"
    and "ptL = center A (foundL ! i)"
    and "ptR = center A (foundR ! i)"
    and "d = nsub A (pt_x ptL) (pt_x ptR)"
    and "gt A d (nlit A 0)"
    and "fx = cameraMatrix1 E 0 0" and "fy = cameraMatrix1 E 1 1"
    and "cx = cameraMatrix1 E 0 2" and "cy = cameraMatrix1 E 1 2"
    and "B = nabs A (T E 0 0)"
    and "Z = ndiv A (nmul A fx B) d"
  shows "result3D E foundL foundR ! i =
           \<lparr> pos_x = ndiv A (nmul A (nsub A (pt_x ptL) cx) Z) fx,
             pos_y = ndiv A (nmul A (nsub A (pt_y ptL) cy) Z) fy,
             pos_z = Z \<rparr>"
proof -
  from assms(2,5,6) have "\<not> le (js E) (nsub (js E) (pt_x ptL) (pt_x ptR)) (nlit (js E) 0)"
    by (simp add: gt_def le_def)
  with assms show ?thesis
    by (simp add: result3D_nth triangulate_def Let_def)
qed

text \<open>With the library of the examples: the left box has its center at (180, 120), the
  right one at (160, 120), so \<open>d = 20\<close>, \<open>Z = 600 * 0.1 / 20 = 3\<close>,
  \<open>X = (180 - 160) * 3 / 600 = 0.1\<close> and \<open>Y = 0\<close>.\<close>

theorem positive_disparity_gives_pinhole_position_witness:
  "gt real_arith (nsub real_arith
       (pt_x (center real_arith \<lparr> rect_x = 170, rect_y = 100, rect_width = 20, rect_height = 40 \<rparr>))
       (pt_x (center real_arith \<lparr> rect_x = 150, rect_y = 100, rect_width = 20, rect_height = 40 \<rparr>)))
     (nlit real_arith 0)
   \<and> result3D example_env
        [\<lparr> rect_x = 170, rect_y = 100, rect_width = 20, rect_height = 40 \<rparr>]
        [\<lparr> rect_x = 150, rect_y = 100, rect_width = 20, rect_height = 40 \<rparr>] ! 0
       = \<lparr> pos_x = 1 / 10, pos_y = 0, pos_z = 3 \<rparr>"
  using positive_disparity_gives_pinhole_position
    [of 0 "[\<lparr> rect_x = 170, rect_y = 100, rect_width = 20, rect_height = 40 \<rparr>]"
        "[\<lparr> rect_x = 150, rect_y = 100, rect_width = 20, rect_height = 40 \<rparr>]"
        real_arith example_env, OF _ _ refl refl refl _ refl refl refl refl refl refl]
  by (simp add: example_env_def real_arith_def center_def gt_def)

text \<open>
  Claim C5. For a triangulated correspondence \<open>i\<close> whose disparity
  \<open>d = centerLeft.x - centerRight.x\<close> is at most 0, slot \<open>i\<close> of the result is the sentinel
  (0, 0, -1).
\<close>

theorem nonpositive_disparity_gives_sentinel:
  assumes "i < min (min (length foundL) (length foundR)) 6"
    and "A = js E"
    and "d = nsub A (pt_x (center A (foundL ! i))) (pt_x (center A (foundR ! i)))"
    and "le A d (nlit A 0)"
  shows "result3D E foundL foundR ! i = \<lparr> pos_x = nlit A 0, pos_y = nlit A 0, pos_z = nlit A (- 1) \<rparr>"
  using assms by (simp add: result3D_nth triangulate_def Let_def sentinel_def)

text \<open>The boxes of the previous example exchanged: \<open>d = 160 - 180 = -20\<close>.\<close>

theorem nonpositive_disparity_gives_sentinel_witness:
  "le real_arith (nsub real_arith
       (pt_x (center real_arith \<lparr> rect_x = 150, rect_y = 100, rect_width = 20, rect_height = 40 \<rparr>))
       (pt_x (center real_arith \<lparr> rect_x = 170, rect_y = 100, rect_width = 20, rect_height = 40 \<rparr>)))
     (nlit real_arith 0)
   \<and> result3D example_env
        [\<lparr> rect_x = 150, rect_y = 100, rect_width = 20, rect_height = 40 \<rparr>]
        [\<lparr> rect_x = 170, rect_y = 100, rect_width = 20, rect_height = 40 \<rparr>] ! 0
       = \<lparr> pos_x = 0, pos_y = 0, pos_z = - 1 \<rparr>"
  using nonpositive_disparity_gives_sentinel
    [of 0 "[\<lparr> rect_x = 150, rect_y = 100, rect_width = 20, rect_height = 40 \<rparr>]"
        "[\<lparr> rect_x = 170, rect_y = 100, rect_width = 20, rect_height = 40 \<rparr>]"
        real_arith example_env, OF _ _ refl]
  by (simp add: example_env_def real_arith_def center_def le_def)

text \<open>
  Claim C6. With \<open>n = min(|left|, |right|, 6)\<close>, the result has six slots: slot \<open>i\<close> below
  \<open>n\<close> is the triangulation of the center of the i-th left box with the center of the
  i-th right box, and the \<open>6 - n\<close> slots from \<open>n\<close> on are sentinels.
\<close>

theorem first_n_index_pairs_are_triangulated:
  assumes "n = min (min (length foundL) (length foundR)) 6"
  shows "length (result3D E foundL foundR) = 6
       \<and> (\<forall>i < n. result3D E foundL foundR ! i =
              triangulate E (center (js E) (foundL ! i)) (center (js E) (foundR ! i)))
       \<and> (\<forall>i. n \<le> i \<and> i < 6 \<longrightarrow> result3D E foundL foundR ! i = sentinel (js E))"
  using assms by (simp add: length_result3D result3D_nth result3D_nth_padding)

text \<open>The example of the specification: eight boxes on the left, three on the right.\<close>

theorem first_n_index_pairs_are_triangulated_witness:
  "(3::nat) = min (min (length (replicate 8 \<lparr> rect_x = 170::real, rect_y = 100, rect_width = 20, rect_height = 40 \<rparr>))
                      (length (replicate 3 \<lparr> rect_x = 150::real, rect_y = 100, rect_width = 20, rect_height = 40 \<rparr>))) 6
   \<and> length (result3D example_env
         (replicate 8 \<lparr> rect_x = 170, rect_y = 100, rect_width = 20, rect_height = 40 \<rparr>)
         (replicate 3 \<lparr> rect_x = 150, rect_y = 100, rect_width = 20, rect_height = 40 \<rparr>)) = 6
   \<and> result3D example_env
         (replicate 8 \<lparr> rect_x = 170, rect_y = 100, rect_width = 20, rect_height = 40 \<rparr>)
         (replicate 3 \<lparr> rect_x = 150, rect_y = 100, rect_width = 20, rect_height = 40 \<rparr>) ! 2
       = \<lparr> pos_x = 1 / 10, pos_y = 0, pos_z = 3 \<rparr>
   \<and> result3D example_env
         (replicate 8 \<lparr> rect_x = 170, rect_y = 100, rect_width = 20, rect_height = 40 \<rparr>)
         (replicate 3 \<lparr> rect_x = 150, rect_y = 100, rect_width = 20, rect_height = 40 \<rparr>) ! 3
       = \<lparr> pos_x = 0, pos_y = 0, pos_z = - 1 \<rparr>
   \<and> result3D example_env
         (replicate 8 \<lparr> rect_x = 170, rect_y = 100, rect_width = 20, rect_height = 40 \<rparr>)
         (replicate 3 \<lparr> rect_x = 150, rect_y = 100, rect_width = 20, rect_height = 40 \<rparr>) ! 5
       = \<lparr> pos_x = 0, pos_y = 0, pos_z = - 1 \<rparr>"
  using first_n_index_pairs_are_triangulated
    [of 3 "replicate 8 \<lparr> rect_x = 170, rect_y = 100, rect_width = 20, rect_height = 40 \<rparr>"
        "replicate 3 \<lparr> rect_x = 150, rect_y = 100, rect_width = 20, rect_height = 40 \<rparr>" example_env]
  by (simp add: example_env_def triangulate_def center_def real_arith_def sentinel_def le_def Let_def)

section \<open>Runs: what the handlers may change\<close>

lemma splice1_subset:
  "set (fst (splice1 xs start)) \<subseteq> set xs" "set (snd (splice1 xs start)) \<subseteq> set xs"
proof -
  show "set (fst (splice1 xs start)) \<subseteq> set xs"
    by (auto simp: splice1_def Let_def dest: in_set_takeD in_set_dropD)
  show "set (snd (splice1 xs start)) \<subseteq> set xs"
    by (auto simp: splice1_def Let_def dest: in_set_takeD in_set_dropD)
qed

text \<open>The three ways \<open>attemptStereoPair\<close> can end: buffers changed only, an exception that
  escapes, or a reconstruction of a front and a back frame taken from the buffers. In
  each, the buffers only lose frames.\<close>

lemma attemptStereoPair_shape:
  "(\<exists>fb. attemptStereoPair E st = st\<lparr>frameBuffers := fb\<rparr>
        \<and> (\<forall>role. set (fb role) \<subseteq> set (frameBuffers st role)))
   \<or> (\<exists>fb. attemptStereoPair E st =
          st\<lparr>frameBuffers := fb, uncaught := uncaught st @ [Error ''TypeError'']\<rparr>
        \<and> (\<forall>role. set (fb role) \<subseteq> set (frameBuffers st role)))
   \<or> (\<exists>fb f b. attemptStereoPair E st =
          processStereoPair E (matColor f) (matColor b) (st\<lparr>frameBuffers := fb\<rparr>)
        \<and> f \<in> set (frameBuffers st Front) \<and> b \<in> set (frameBuffers st Back)
        \<and> (\<forall>role. set (fb role) \<subseteq> set (frameBuffers st role)))"
proof -
  have same: "st = st\<lparr>frameBuffers := frameBuffers st\<rparr>
      \<and> (\<forall>role. set (frameBuffers st role) \<subseteq> set (frameBuffers st role))" by simp
  show ?thesis
  proof (cases "frameBuffers st Front")
    case Nil
    then have "attemptStereoPair E st = st" by (simp add: attemptStereoPair_def)
    with same show ?thesis by metis
  next
    case front: (Cons f fs)
    show ?thesis
    proof (cases "frameBuffers st Back")
      case Nil
      with front have "attemptStereoPair E st = st" by (simp add: attemptStereoPair_def)
      with same show ?thesis by metis
    next
      case bk: (Cons b bs)
      obtain bi sd where scan: "scanBack (b # bs) (timestamp f) 0 (- 1, MAX_SAFE_INTEGER) = (bi, sd)"
        by (cases "scanBack (b # bs) (timestamp f) 0 (- 1, MAX_SAFE_INTEGER)")
      obtain removed backRest where sp: "splice1 (b # bs) bi = (removed, backRest)"
        by (cases "splice1 (b # bs) bi")
      from splice1_subset[of "b # bs" bi] sp bk
      have rem: "set removed \<subseteq> set (frameBuffers st Back)"
        and rest: "set backRest \<subseteq> set (frameBuffers st Back)" by simp_all
      from front have fs: "set fs \<subseteq> set (frameBuffers st Front)" by auto
      have sub1: "\<forall>role. set (((frameBuffers st)(Front := fs)) role) \<subseteq> set (frameBuffers st role)"
        using fs by simp
      have sub2: "\<forall>role. set (((frameBuffers st)(Back := backRest, Front := fs)) role)
                     \<subseteq> set (frameBuffers st role)"
        using fs rest by simp
      show ?thesis
      proof (cases "200 < sd")
        case True
        with front bk scan
        have "attemptStereoPair E st = st\<lparr>frameBuffers := (frameBuffers st)(Front := fs)\<rparr>"
          by (simp add: attemptStereoPair_def)
        with sub1 show ?thesis by blast
      next
        case False
        show ?thesis
        proof (cases removed)
          case Nil
          with False front bk scan sp
          have "attemptStereoPair E st =
                  st\<lparr>frameBuffers := (frameBuffers st)(Back := backRest, Front := fs),
                     uncaught := uncaught st @ [Error ''TypeError'']\<rparr>"
            by (simp add: attemptStereoPair_def)
          with sub2 show ?thesis by blast
        next
          case (Cons backFrame more)
          with False front bk scan sp
          have "attemptStereoPair E st = processStereoPair E (matColor f) (matColor backFrame)
                  (st\<lparr>frameBuffers := (frameBuffers st)(Back := backRest, Front := fs)\<rparr>)"
            by (simp add: attemptStereoPair_def)
          moreover from front have "f \<in> set (frameBuffers st Front)" by simp
          moreover from Cons rem have "backFrame \<in> set (frameBuffers st Back)" by auto
          ultimately show ?thesis using sub2 by blast
        qed
      qed
    qed
  qed
qed

lemma attemptStereoPair_keeps:
  "clients (attemptStereoPair E st) = clients st"
  "myRole (attemptStereoPair E st) = myRole st"
  "readyState (attemptStereoPair E st) = readyState st"
  "rectification (attemptStereoPair E st) = rectification st"
  using attemptStereoPair_shape[of E st]
  by (auto simp: processStereoPair_keeps)

lemma result3D_zip:
  "result3D E foundL foundR =
     map (\<lambda>(boxL, boxR). triangulate E (center (js E) boxL) (center (js E) boxR))
         (take 6 (zip foundL foundR))
     @ replicate (6 - length (take 6 (zip foundL foundR))) (sentinel (js E))"
proof -
  let ?n = "min (min (length foundL) (length foundR)) 6"
  have "map (\<lambda>i. triangulate E (center (js E) (foundL ! i)) (center (js E) (foundR ! i))) [0..<?n]
        = map (\<lambda>(boxL, boxR). triangulate E (center (js E) boxL) (center (js E) boxR))
            (take 6 (zip foundL foundR))"
    by (rule nth_equalityI) auto
  then show ?thesis by (simp add: result3D_eq)
qed

lemma frame_of_positions_message:
  "detections E rc l r = Inr (foundL, foundR) \<Longrightarrow> frame_of E rc l r (positions_message E foundL foundR)"
  by (simp add: frame_of_def positions_message_def result3D_zip)

lemma frame_of_length: "frame_of E rc l r p \<Longrightarrow> length (payload_data p) = 6"
  by (auto simp: frame_of_def split: sum.splits)

text \<open>What a reconstruction appends to the record of sends are frames of its two images.\<close>

lemma processStereoPair_sent:
  "\<exists>ys. sent (processStereoPair E l r st) = sent st @ ys
      \<and> (\<forall>(c, p) \<in> set ys. frame_of E (rectification st) l r p)"
proof -
  from processStereoPair_frame[of E l r st] obtain k ys errs where
    eq: "processStereoPair E l r st =
       st\<lparr>calls := calls st @ take k (pipeline_calls (rectification st)),
          sent := sent st @ ys,
          caught := caught st @ errs\<rparr>"
    and ys: "\<forall>(c, p) \<in> set ys. c \<in> set (open_clients st (clients st))
           \<and> (\<exists>foundL foundR. detections E (rectification st) l r = Inr (foundL, foundR)
                 \<and> p = positions_message E foundL foundR)" by blast
  from eq have "sent (processStereoPair E l r st) = sent st @ ys" by simp
  moreover from ys have "\<forall>(c, p) \<in> set ys. frame_of E (rectification st) l r p"
    by (auto intro: frame_of_positions_message)
  ultimately show ?thesis by blast
qed

lemma processStereoPair_calls_prefix:
  "\<exists>k. calls (processStereoPair E l r st) = calls st @ take k (pipeline_calls (rectification st))"
proof -
  from processStereoPair_frame[of E l r st] obtain k ys errs where
    "processStereoPair E l r st =
       st\<lparr>calls := calls st @ take k (pipeline_calls (rectification st)),
          sent := sent st @ ys,
          caught := caught st @ errs\<rparr>" by blast
  then have "calls (processStereoPair E l r st) = calls st @ take k (pipeline_calls (rectification st))"
    by simp
  then show ?thesis by blast
qed

lemma attemptStereoPair_calls:
  "\<exists>k. calls (attemptStereoPair E st) = calls st @ take k (pipeline_calls (rectification st))"
proof -
  have none: "calls st' = calls st \<Longrightarrow>
      \<exists>k. calls st' = calls st @ take k (pipeline_calls (rectification st))" for st' :: "('a, 'b) server"
    by (intro exI[of _ 0]) simp
  from attemptStereoPair_shape[of E st] show ?thesis
  proof (elim disjE exE conjE)
    fix fb assume "attemptStereoPair E st = st\<lparr>frameBuffers := fb\<rparr>"
    then show ?thesis by (intro none) simp
  next
    fix fb assume "attemptStereoPair E st =
        st\<lparr>frameBuffers := fb, uncaught := uncaught st @ [Error ''TypeError'']\<rparr>"
    then show ?thesis by (intro none) simp
  next
    fix fb f b
    assume a: "attemptStereoPair E st =
        processStereoPair E (matColor f) (matColor b) (st\<lparr>frameBuffers := fb\<rparr>)"
    from processStereoPair_calls_prefix[of E "matColor f" "matColor b" "st\<lparr>frameBuffers := fb\<rparr>"] a
    show ?thesis by simp
  qed
qed

text \<open>Frames stay within a set of images that holds those of the buffers, and what
  \<open>attemptStereoPair\<close> sends is a frame of two images of that set.\<close>

lemma attemptStereoPair_frames:
  assumes "\<forall>role. \<forall>fr \<in> set (frameBuffers st role). matColor fr \<in> D"
  shows "(\<forall>role. \<forall>fr \<in> set (frameBuffers (attemptStereoPair E st) role). matColor fr \<in> D)
       \<and> (\<exists>ys. sent (attemptStereoPair E st) = sent st @ ys
             \<and> (\<forall>(c, p) \<in> set ys. \<exists>l \<in> D. \<exists>r \<in> D. frame_of E (rectification st) l r p))"
proof -
  have keep: "(\<forall>role. \<forall>fr \<in> set (fb role). matColor fr \<in> D)"
    if "\<forall>role. set (fb role) \<subseteq> set (frameBuffers st role)" for fb
    using that assms by blast
  have none: "sent st' = sent st \<Longrightarrow> \<exists>ys. sent st' = sent st @ ys
             \<and> (\<forall>(c, p) \<in> set ys. \<exists>l \<in> D. \<exists>r \<in> D. frame_of E (rectification st) l r p)"
    for st' :: "('a, 'b) server"
    by (intro exI[of _ "[]"]) simp
  from attemptStereoPair_shape[of E st] show ?thesis
  proof (elim disjE exE conjE)
    fix fb assume eq: "attemptStereoPair E st = st\<lparr>frameBuffers := fb\<rparr>"
      and sub: "\<forall>role. set (fb role) \<subseteq> set (frameBuffers st role)"
    from eq have "sent (attemptStereoPair E st) = sent st" by simp
    from none[OF this] keep[OF sub] eq show ?thesis by simp
  next
    fix fb assume eq: "attemptStereoPair E st =
        st\<lparr>frameBuffers := fb, uncaught := uncaught st @ [Error ''TypeError'']\<rparr>"
      and sub: "\<forall>role. set (fb role) \<subseteq> set (frameBuffers st role)"
    from eq have "sent (attemptStereoPair E st) = sent st" by simp
    from none[OF this] keep[OF sub] eq show ?thesis by simp
  next
    fix fb f b
    assume eq: "attemptStereoPair E st =
        processStereoPair E (matColor f) (matColor b) (st\<lparr>frameBuffers := fb\<rparr>)"
      and f: "f \<in> set (frameBuffers st Front)" and b: "b \<in> set (frameBuffers st Back)"
      and sub: "\<forall>role. set (fb role) \<subseteq> set (frameBuffers st role)"
    from f b assms have D: "matColor f \<in> D" "matColor b \<in> D" by blast+
    from processStereoPair_sent[of E "matColor f" "matColor b" "st\<lparr>frameBuffers := fb\<rparr>"]
    obtain ys where ys: "sent (processStereoPair E (matColor f) (matColor b) (st\<lparr>frameBuffers := fb\<rparr>))
          = sent st @ ys"
      "\<forall>(c, p) \<in> set ys. frame_of E (rectification st) (matColor f) (matColor b) p"
      by auto
    from ys(2) D have "\<forall>(c, p) \<in> set ys. \<exists>l \<in> D. \<exists>r \<in> D. frame_of E (rectification st) l r p"
      by blast
    with ys(1) eq have "\<exists>ys. sent (attemptStereoPair E st) = sent st @ ys
             \<and> (\<forall>(c, p) \<in> set ys. \<exists>l \<in> D. \<exists>r \<in> D. frame_of E (rectification st) l r p)"
      by auto
    moreover from eq keep[OF sub]
    have "\<forall>role. \<forall>fr \<in> set (frameBuffers (attemptStereoPair E st) role). matColor fr \<in> D"
      by (simp add: processStereoPair_keeps)
    ultimately show ?thesis by blast
  qed
qed

text \<open>The message handler either leaves calls, sends, buffers and constants alone, or
  appends one decoded frame to a buffer and attempts a pairing.\<close>

lemma on_message_shape:
  "(calls (on_message E s data st) = calls st \<and> sent (on_message E s data st) = sent st
      \<and> frameBuffers (on_message E s data st) = frameBuffers st
      \<and> rectification (on_message E s data st) = rectification st)
   \<or> (\<exists>m r mat. data = Some m \<and> msg_type m = ''frame'' \<and> imdecode E (msg_img m) = Inr mat
          \<and> on_message E s data st =
              attemptStereoPair E
                (st\<lparr>frameBuffers := (frameBuffers st)
                     (r := frameBuffers st r @
                        [\<lparr> seq = msg_seq m, timestamp = msg_timestamp m, matColor = mat \<rparr>])\<rparr>))"
proof (cases data)
  case None
  then show ?thesis by (simp add: on_message_def)
next
  case (Some m)
  show ?thesis
  proof (cases "msg_type m = ''role''")
    case True
    with Some show ?thesis by (simp add: on_message_def split: option.splits)
  next
    case notrole: False
    show ?thesis
    proof (cases "msg_type m = ''frame''")
      case False
      with Some notrole show ?thesis by (simp add: on_message_def)
    next
      case frame: True
      show ?thesis
      proof (cases "myRole st s")
        case None
        with Some notrole frame show ?thesis by (simp add: on_message_def)
      next
        case role: (Some r)
        show ?thesis
        proof (cases "imdecode E (msg_img m)")
          case (Inl err)
          with Some notrole frame role show ?thesis by (simp add: on_message_def)
        next
          case (Inr mat)
          from Some notrole frame role Inr
          have "on_message E s data st = attemptStereoPair E
                (st\<lparr>frameBuffers := (frameBuffers st)
                     (r := frameBuffers st r @
                        [\<lparr> seq = msg_seq m, timestamp = msg_timestamp m, matColor = mat \<rparr>])\<rparr>)"
            by (simp add: on_message_def)
          with Some frame Inr show ?thesis by blast
        qed
      qed
    qed
  qed
qed

lemma step_rectification: "rectification (step E ev st) = rectification st"
proof (cases ev)
  case (Message s data)
  from on_message_shape[of E s data st] Message show ?thesis
    by (auto simp: attemptStereoPair_keeps)
qed (simp_all add: on_connection_def on_close_def)

lemma step_calls:
  "\<exists>k. calls (step E ev st) = calls st @ take k (pipeline_calls (rectification st))"
proof -
  have none: "calls st' = calls st \<Longrightarrow>
      \<exists>k. calls st' = calls st @ take k (pipeline_calls (rectification st))" for st' :: "('a, 'b) server"
    by (intro exI[of _ 0]) simp
  show ?thesis
  proof (cases ev)
    case (SocketState s rs)
    then show ?thesis by (intro none) simp
  next
    case (Connection s)
    then show ?thesis by (intro none) (simp add: on_connection_def)
  next
    case (Close s)
    then show ?thesis by (intro none) (simp add: on_close_def)
  next
    case (Message s data)
    from on_message_shape[of E s data st] show ?thesis
    proof (elim disjE exE conjE)
      assume "calls (on_message E s data st) = calls st"
      with Message show ?thesis by (intro none) simp
    next
      fix m r mat
      assume eq: "on_message E s data st =
              attemptStereoPair E
                (st\<lparr>frameBuffers := (frameBuffers st)
                     (r := frameBuffers st r @
                        [\<lparr> seq = msg_seq m, timestamp = msg_timestamp m, matColor = mat \<rparr>])\<rparr>)"
      from attemptStereoPair_calls[of E "st\<lparr>frameBuffers := (frameBuffers st)
                     (r := frameBuffers st r @
                        [\<lparr> seq = msg_seq m, timestamp = msg_timestamp m, matColor = mat \<rparr>])\<rparr>"]
        eq Message show ?thesis by simp
    qed
  qed
qed

lemma decoded_append: "decoded E (xs @ ys) = decoded E xs @ decoded E ys"
  by (induction E xs rule: decoded.induct) (auto split: sum.splits)

lemma step_frames:
  assumes bufs: "\<forall>role. \<forall>fr \<in> set (frameBuffers st role). matColor fr \<in> D"
    and ev: "set (decoded E [ev]) \<subseteq> D"
  shows "(\<forall>role. \<forall>fr \<in> set (frameBuffers (step E ev st) role). matColor fr \<in> D)
       \<and> (\<exists>ys. sent (step E ev st) = sent st @ ys
             \<and> (\<forall>(c, p) \<in> set ys. \<exists>l \<in> D. \<exists>r \<in> D. frame_of E (rectification st) l r p))"
proof -
  have none: "sent st' = sent st \<Longrightarrow> frameBuffers st' = frameBuffers st \<Longrightarrow>
      (\<forall>role. \<forall>fr \<in> set (frameBuffers st' role). matColor fr \<in> D)
       \<and> (\<exists>ys. sent st' = sent st @ ys
             \<and> (\<forall>(c, p) \<in> set ys. \<exists>l \<in> D. \<exists>r \<in> D. frame_of E (rectification st) l r p))"
    for st' :: "('a, 'b) server"
    using bufs by (intro conjI exI[of _ "[]"]) simp_all
  show ?thesis
  proof (cases ev)
    case (SocketState s rs)
    then show ?thesis by (intro none) simp_all
  next
    case (Connection s)
    then show ?thesis by (intro none) (simp_all add: on_connection_def)
  next
    case (Close s)
    then show ?thesis by (intro none) (simp_all add: on_close_def)
  next
    case (Message s data)
    from on_message_shape[of E s data st] show ?thesis
    proof (elim disjE exE conjE)
      assume "sent (on_message E s data st) = sent st"
        "frameBuffers (on_message E s data st) = frameBuffers st"
      with Message show ?thesis by (intro none) simp_all
    next
      fix m r mat
      assume m: "data = Some m" "msg_type m = ''frame''" "imdecode E (msg_img m) = Inr mat"
        and eq: "on_message E s data st =
              attemptStereoPair E
                (st\<lparr>frameBuffers := (frameBuffers st)
                     (r := frameBuffers st r @
                        [\<lparr> seq = msg_seq m, timestamp = msg_timestamp m, matColor = mat \<rparr>])\<rparr>)"
      let ?st0 = "st\<lparr>frameBuffers := (frameBuffers st)
                     (r := frameBuffers st r @
                        [\<lparr> seq = msg_seq m, timestamp = msg_timestamp m, matColor = mat \<rparr>])\<rparr>"
      from m Message ev have "mat \<in> D" by simp
      with bufs have "\<forall>role. \<forall>fr \<in> set (frameBuffers ?st0 role). matColor fr \<in> D" by auto
      from attemptStereoPair_frames[OF this, of E] eq Message show ?thesis by simp
    qed
  qed
qed

text \<open>In every run from startup: the constants of the module stay those that
  \<open>stereoRectify\<close> returned; the calls after startup are calls of reconstructions; the
  buffers hold decoded images of the frame messages received, and every message sent is
  the frame of two of them.\<close>

lemma run_snoc: "run E (evs @ [ev]) st = step E ev (run E evs st)"
  by (simp add: run_def)

lemma run_rectification: "rectification (run E evs st) = rectification st"
  by (induction evs rule: rev_induct) (simp_all add: run_def step_rectification)

lemma run_calls:
  "\<exists>xs. calls (run E evs st) = calls st @ xs \<and> set xs \<subseteq> set (pipeline_calls (rectification st))"
proof (induction evs rule: rev_induct)
  case Nil
  then show ?case by (simp add: run_def)
next
  case (snoc ev evs)
  let ?st = "run E evs st"
  from step_calls[of E ev ?st] obtain k where
    c: "calls (step E ev ?st) = calls ?st @ take k (pipeline_calls (rectification st))"
    by (auto simp: run_rectification)
  from snoc obtain xs where
    xs: "calls ?st = calls st @ xs" "set xs \<subseteq> set (pipeline_calls (rectification st))"
    by blast
  have "set (take k (pipeline_calls (rectification st))) \<subseteq> set (pipeline_calls (rectification st))"
    by (rule set_take_subset)
  with xs c have "calls (step E ev ?st) = calls st @ (xs @ take k (pipeline_calls (rectification st)))
      \<and> set (xs @ take k (pipeline_calls (rectification st))) \<subseteq> set (pipeline_calls (rectification st))"
    by simp
  then show ?case unfolding run_snoc by blast
qed

lemma run_frames:
  "(\<forall>role. \<forall>fr \<in> set (frameBuffers (run E evs (startup E)) role). matColor fr \<in> set (decoded E evs))
   \<and> (\<forall>(c, p) \<in> set (sent (run E evs (startup E))).
         \<exists>l \<in> set (decoded E evs). \<exists>r \<in> set (decoded E evs). frame_of E (stereoRectify E) l r p)"
proof (induction evs rule: rev_induct)
  case Nil
  then show ?case by (simp add: run_def startup_def)
next
  case (snoc ev evs)
  let ?st = "run E evs (startup E)"
  let ?D = "set (decoded E (evs @ [ev]))"
  have rc: "rectification ?st = stereoRectify E"
    by (simp add: run_rectification startup_def)
  have sub: "set (decoded E evs) \<subseteq> ?D" "set (decoded E [ev]) \<subseteq> ?D"
    by (simp_all add: decoded_append)
  from snoc sub(1) have bufs: "\<forall>role. \<forall>fr \<in> set (frameBuffers ?st role). matColor fr \<in> ?D"
    by blast
  from snoc sub(1) have old: "\<forall>(c, p) \<in> set (sent ?st).
         \<exists>l \<in> ?D. \<exists>r \<in> ?D. frame_of E (stereoRectify E) l r p"
    by blast
  from step_frames[OF bufs sub(2)] rc obtain ys where
    b: "\<forall>role. \<forall>fr \<in> set (frameBuffers (step E ev ?st) role). matColor fr \<in> ?D"
    and s: "sent (step E ev ?st) = sent ?st @ ys"
    and ys: "\<forall>(c, p) \<in> set ys. \<exists>l \<in> ?D. \<exists>r \<in> ?D. frame_of E (stereoRectify E) l r p"
    by auto
  from old s ys have "\<forall>(c, p) \<in> set (sent (step E ev ?st)).
         \<exists>l \<in> ?D. \<exists>r \<in> ?D. frame_of E (stereoRectify E) l r p"
    by auto
  with b show ?case unfolding run_snoc by blast
qed

section \<open>Concrete runs\<close>

lemma sent_one_pair:
  "sent (run example_env one_pair (startup example_env)) =
     [(1, example_message), (2, example_message), (3, example_message)]"
  by code_simp

lemma one_pair_failing:
  "sent (run failing_env one_pair (startup failing_env)) =
     [(1, example_message), (2, example_message), (3, example_message)]"
  "delivered failing_env (run failing_env one_pair (startup failing_env)) =
     [(1, example_message), (3, example_message)]"
  "caught (run failing_env one_pair (startup failing_env)) = []"
  by code_simp+

lemma calls_two_pairs:
  "calls (run example_env two_pairs (startup example_env)) =
     StereoRectify # pipeline_calls (stereoRectify example_env) @ pipeline_calls (stereoRectify example_env)"
  by code_simp

lemma example_detections:
  "detections failing_env (stereoRectify failing_env) 1 2 =
     Inr ([\<lparr> rect_x = 170, rect_y = 100, rect_width = 20, rect_height = 40 \<rparr>],
          [\<lparr> rect_x = 150, rect_y = 100, rect_width = 20, rect_height = 40 \<rparr>])"
  "detections example_env (stereoRectify example_env) 1 2 =
     Inr ([\<lparr> rect_x = 170, rect_y = 100, rect_width = 20, rect_height = 40 \<rparr>],
          [\<lparr> rect_x = 150, rect_y = 100, rect_width = 20, rect_height = 40 \<rparr>])"
  "positions_message failing_env
     [\<lparr> rect_x = 170, rect_y = 100, rect_width = 20, rect_height = 40 \<rparr>]
     [\<lparr> rect_x = 150, rect_y = 100, rect_width = 20, rect_height = 40 \<rparr>] = example_message"
  "positions_message example_env
     [\<lparr> rect_x = 170, rect_y = 100, rect_width = 20, rect_height = 40 \<rparr>]
     [\<lparr> rect_x = 150, rect_y = 100, rect_width = 20, rect_height = 40 \<rparr>] = example_message"
  by code_simp+

lemma registration_state:
  "clients (run E registration (startup E)) = [(1, Front), (2, Back), (3, Back)]"
  "readyState (run E registration (startup E)) = (\<lambda>_. CLOSED)(1 := OPEN, 2 := OPEN, 3 := OPEN, 4 := OPEN)"
  "sent (run E registration (startup E)) = []"
  "caught (run E registration (startup E)) = []"
  "uncaught (run E registration (startup E)) = []"
  "calls (run E registration (startup E)) = [StereoRectify]"
  "rectification (run E registration (startup E)) = stereoRectify E"
  "myRole (run E registration (startup E)) = (\<lambda>_. None)(1 \<mapsto> Front, 2 \<mapsto> Back, 3 \<mapsto> Back)"
  "frameBuffers (run E registration (startup E)) = (\<lambda>_. [])"
  by (simp_all add: run_def registration_def startup_def on_connection_def on_message_def
      role_msg_def role_of_def fun_eq_iff)

section \<open>The result frame: the claim\<close>

text \<open>
  Claim C3. Every frame the process sends carries exactly six positions. A
  reconstruction of two images only appends to the record of sends, and each message it
  appends is the frame of those two images: the detections of the two images succeeded
  and the message holds the triangulated entries of their boxes, paired index by index
  in the order the detector produced them, followed by sentinels (0, 0, -1) up to six.
  In every run from startup, every message sent has six positions and is the frame of
  two images decoded from frame messages of the run.
\<close>

theorem every_sent_frame_has_six_positions:
  "take (length (sent st)) (sent (processStereoPair E l r st)) = sent st
   \<and> (\<forall>(c, p) \<in> set (drop (length (sent st)) (sent (processStereoPair E l r st))).
         frame_of E (rectification st) l r p \<and> length (payload_data p) = 6)
   \<and> (\<forall>(c, p) \<in> set (sent (run E evs (startup E))).
         length (payload_data p) = 6
         \<and> (\<exists>l' \<in> set (decoded E evs). \<exists>r' \<in> set (decoded E evs).
               frame_of E (stereoRectify E) l' r' p))"
proof -
  from processStereoPair_sent[of E l r st] obtain ys where
    ys: "sent (processStereoPair E l r st) = sent st @ ys"
    "\<forall>(c, p) \<in> set ys. frame_of E (rectification st) l r p" by blast
  from ys have 1: "take (length (sent st)) (sent (processStereoPair E l r st)) = sent st"
    by simp
  from ys have 2: "\<forall>(c, p) \<in> set (drop (length (sent st)) (sent (processStereoPair E l r st))).
         frame_of E (rectification st) l r p \<and> length (payload_data p) = 6"
    by (auto dest: frame_of_length)
  from run_frames[of E evs]
  have 3: "\<forall>(c, p) \<in> set (sent (run E evs (startup E))).
         length (payload_data p) = 6
         \<and> (\<exists>l' \<in> set (decoded E evs). \<exists>r' \<in> set (decoded E evs).
               frame_of E (stereoRectify E) l' r' p)"
    by (fastforce dest: frame_of_length)
  from 1 2 3 show ?thesis by blast
qed

text \<open>After the registration of the example, the reconstruction of images 1 and 2 sends
  the example message to sockets 1, 2 and 3; it is the frame of images 1 and 2.\<close>

theorem every_sent_frame_has_six_positions_witness:
  "sent (processStereoPair example_env 1 2 (run example_env registration (startup example_env)))
     = [(1, example_message), (2, example_message), (3, example_message)]
   \<and> detections example_env (stereoRectify example_env) 1 2 =
       Inr ([\<lparr> rect_x = 170, rect_y = 100, rect_width = 20, rect_height = 40 \<rparr>],
            [\<lparr> rect_x = 150, rect_y = 100, rect_width = 20, rect_height = 40 \<rparr>])
   \<and> frame_of example_env (stereoRectify example_env) 1 2 example_message
   \<and> length (payload_data example_message) = 6
   \<and> decoded example_env one_pair = [1, 2]"
proof -
  let ?st = "run example_env registration (startup example_env)"
  have s: "sent (processStereoPair example_env 1 2 ?st)
     = [(1, example_message), (2, example_message), (3, example_message)]"
    by code_simp
  have d: "decoded example_env one_pair = [1, 2]" by code_simp
  from every_sent_frame_has_six_positions[of ?st example_env 1 2 one_pair] s
  have "frame_of example_env (stereoRectify example_env) 1 2 example_message
        \<and> length (payload_data example_message) = 6"
    by (simp add: registration_state)
  with s d example_detections(2) show ?thesis by simp
qed

section \<open>Rectification: the claim\<close>

lemma detections_Inl_index:
  "detections E rc l r = Inl (e, k) \<Longrightarrow> 1 \<le> k \<and> k \<le> 11"
  "detections E rc l r = Inl (e, k) \<Longrightarrow> bgrToGray E l = Inr grayL \<Longrightarrow> bgrToGray E r = Inr grayR
     \<Longrightarrow> 3 \<le> k"
  "detections E rc l r = Inl (e, k) \<Longrightarrow> bgrToGray E l = Inr grayL \<Longrightarrow> bgrToGray E r = Inr grayR
     \<Longrightarrow> initUndistortRectifyMap E Cam1 (R1 rc) (P1 rc) = Inr mapL \<Longrightarrow> 4 \<le> k"
  unfolding detections_def orElse_def by (auto split: sum.splits)

text \<open>The calls of a reconstruction are the first \<open>k\<close> calls of the pipeline, where \<open>k\<close>
  is the place of the call that threw, or all eleven.\<close>

lemma processStereoPair_calls:
  "\<exists>k \<le> 11. calls (processStereoPair E l r st) = calls st @ take k (pipeline_calls (rectification st))
      \<and> (\<forall>grayL grayR. bgrToGray E l = Inr grayL \<and> bgrToGray E r = Inr grayR \<longrightarrow> 3 \<le> k)
      \<and> (\<forall>grayL grayR mapL. bgrToGray E l = Inr grayL \<and> bgrToGray E r = Inr grayR
            \<and> initUndistortRectifyMap E Cam1 (R1 (rectification st)) (P1 (rectification st)) = Inr mapL
            \<longrightarrow> 4 \<le> k)"
proof (cases "detections E (rectification st) l r")
  case (Inl a)
  obtain e k where a: "a = (e, k)" by (cases a)
  from Inl a have "calls (processStereoPair E l r st) = calls st @ take k (pipeline_calls (rectification st))"
    by (simp add: processStereoPair_eq)
  moreover from Inl a detections_Inl_index[of E "rectification st" l r e k]
  have "k \<le> 11"
    "\<forall>grayL grayR. bgrToGray E l = Inr grayL \<and> bgrToGray E r = Inr grayR \<longrightarrow> 3 \<le> k"
    "\<forall>grayL grayR mapL. bgrToGray E l = Inr grayL \<and> bgrToGray E r = Inr grayR
            \<and> initUndistortRectifyMap E Cam1 (R1 (rectification st)) (P1 (rectification st)) = Inr mapL
            \<longrightarrow> 4 \<le> k"
    by auto
  ultimately show ?thesis by blast
next
  case (Inr b)
  obtain foundL foundR where b: "b = (foundL, foundR)" by (cases b)
  from broadcast_frame[of E "positions_message E foundL foundR" "clients st"
      "st\<lparr>calls := calls st @ pipeline_calls (rectification st)\<rparr>"]
  obtain ys res where
    "broadcast E (positions_message E foundL foundR) (clients st)
        (st\<lparr>calls := calls st @ pipeline_calls (rectification st)\<rparr>)
      = (res, st\<lparr>calls := calls st @ pipeline_calls (rectification st)\<rparr>
                \<lparr>sent := sent (st\<lparr>calls := calls st @ pipeline_calls (rectification st)\<rparr>)
            @ map (\<lambda>c. (c, positions_message E foundL foundR)) ys\<rparr>)" by blast
  with Inr b have "calls (processStereoPair E l r st) = calls st @ take 11 (pipeline_calls (rectification st))"
    by (simp add: processStereoPair_eq pipeline_calls_def split: sum.splits)
  then show ?thesis by (intro exI[of _ 11]) simp
qed

lemma count_take_pipeline_calls:
  "count_list (take k (pipeline_calls rc)) StereoRectify = 0"
  "3 \<le> k \<Longrightarrow> k \<le> 11 \<Longrightarrow>
     count_list (take k (pipeline_calls rc)) (InitUndistortRectifyMap Cam1 (R1 rc) (P1 rc)) = 1"
  "4 \<le> k \<Longrightarrow> k \<le> 11 \<Longrightarrow>
     count_list (take k (pipeline_calls rc)) (InitUndistortRectifyMap Cam2 (R2 rc) (P2 rc)) = 1"
proof -
  have "set (take k (pipeline_calls rc)) \<subseteq> set (pipeline_calls rc)" by (rule set_take_subset)
  moreover have "StereoRectify \<notin> set (pipeline_calls rc)" by (simp add: pipeline_calls_def)
  ultimately show "count_list (take k (pipeline_calls rc)) StereoRectify = 0"
    by (auto simp: count_list_0_iff)
next
  assume "3 \<le> k" "k \<le> 11"
  then have "k = 3 \<or> k = 4 \<or> k = 5 \<or> k = 6 \<or> k = 7 \<or> k = 8 \<or> k = 9 \<or> k = 10 \<or> k = 11"
    by arith
  then show "count_list (take k (pipeline_calls rc)) (InitUndistortRectifyMap Cam1 (R1 rc) (P1 rc)) = 1"
    by (elim disjE) (simp_all add: pipeline_calls_def)
next
  assume "4 \<le> k" "k \<le> 11"
  then have "k = 4 \<or> k = 5 \<or> k = 6 \<or> k = 7 \<or> k = 8 \<or> k = 9 \<or> k = 10 \<or> k = 11"
    by arith
  then show "count_list (take k (pipeline_calls rc)) (InitUndistortRectifyMap Cam2 (R2 rc) (P2 rc)) = 1"
    by (elim disjE) (simp_all add: pipeline_calls_def)
qed

text \<open>
  Claim C7, as the code has it. \<open>stereoRectify\<close> runs once, at startup, and no run calls
  it again; what it returned stays the value of the module's constants in every run,
  and every reconstruction passes the same \<open>R1\<close>, \<open>P1\<close> and \<open>R2\<close>, \<open>P2\<close> to its map
  computations. The undistort/rectify maps themselves are not kept: a reconstruction
  whose two grayscale conversions succeed calls \<open>initUndistortRectifyMap\<close> for camera 1
  once more, and when that call returns, for camera 2 once more; a reconstruction that
  reaches the broadcast has made the eleven calls of the pipeline, both map computations
  among them, and the calls of any reconstruction are the first calls of that pipeline.
\<close>

theorem stereoRectify_once_maps_in_every_reconstruction:
  assumes "bgrToGray E l = Inr grayL" and "bgrToGray E r = Inr grayR"
    and "rc = rectification st"
  shows "count_list (calls (run E evs (startup E))) StereoRectify = 1
       \<and> rectification (run E evs (startup E)) = stereoRectify E
       \<and> rectification (processStereoPair E l r st) = rc
       \<and> count_list (calls (processStereoPair E l r st)) StereoRectify
           = count_list (calls st) StereoRectify
       \<and> count_list (calls (processStereoPair E l r st)) (InitUndistortRectifyMap Cam1 (R1 rc) (P1 rc))
           = count_list (calls st) (InitUndistortRectifyMap Cam1 (R1 rc) (P1 rc)) + 1
       \<and> (\<forall>mapL. initUndistortRectifyMap E Cam1 (R1 rc) (P1 rc) = Inr mapL \<longrightarrow>
            count_list (calls (processStereoPair E l r st)) (InitUndistortRectifyMap Cam2 (R2 rc) (P2 rc))
              = count_list (calls st) (InitUndistortRectifyMap Cam2 (R2 rc) (P2 rc)) + 1)
       \<and> (\<forall>foundL foundR. detections E rc l r = Inr (foundL, foundR) \<longrightarrow>
            calls (processStereoPair E l r st) = calls st @ pipeline_calls rc)
       \<and> (\<exists>k \<le> 11. calls (processStereoPair E l r st) = calls st @ take k (pipeline_calls rc))"
proof -
  from run_calls[of E evs "startup E"] obtain xs where
    xs: "calls (run E evs (startup E)) = calls (startup E) @ xs"
    "set xs \<subseteq> set (pipeline_calls (rectification (startup E)))" by blast
  have "StereoRectify \<notin> set (pipeline_calls (rectification (startup E)))"
    by (simp add: pipeline_calls_def)
  with xs(2) have "count_list xs StereoRectify = 0" by (auto simp: count_list_0_iff)
  with xs(1) have 1: "count_list (calls (run E evs (startup E))) StereoRectify = 1"
    by (simp add: startup_def)
  have 2: "rectification (run E evs (startup E)) = stereoRectify E"
    by (simp add: run_rectification startup_def)
  have 3: "rectification (processStereoPair E l r st) = rc"
    by (simp add: assms(3) processStereoPair_keeps)
  from processStereoPair_calls[of E l r st] assms obtain k where
    k: "calls (processStereoPair E l r st) = calls st @ take k (pipeline_calls rc)"
      "3 \<le> k" "k \<le> 11"
    and k4: "\<forall>mapL. initUndistortRectifyMap E Cam1 (R1 rc) (P1 rc) = Inr mapL \<longrightarrow> 4 \<le> k"
    by blast
  from k have 4: "count_list (calls (processStereoPair E l r st)) StereoRectify
           = count_list (calls st) StereoRectify"
    by (simp add: count_take_pipeline_calls)
  from k have 5: "count_list (calls (processStereoPair E l r st)) (InitUndistortRectifyMap Cam1 (R1 rc) (P1 rc))
           = count_list (calls st) (InitUndistortRectifyMap Cam1 (R1 rc) (P1 rc)) + 1"
    by (simp add: count_take_pipeline_calls)
  from k k4 have 6: "\<forall>mapL. initUndistortRectifyMap E Cam1 (R1 rc) (P1 rc) = Inr mapL \<longrightarrow>
            count_list (calls (processStereoPair E l r st)) (InitUndistortRectifyMap Cam2 (R2 rc) (P2 rc))
              = count_list (calls st) (InitUndistortRectifyMap Cam2 (R2 rc) (P2 rc)) + 1"
    by (simp add: count_take_pipeline_calls)
  have 7: "\<forall>foundL foundR. detections E rc l r = Inr (foundL, foundR) \<longrightarrow>
            calls (processStereoPair E l r st) = calls st @ pipeline_calls rc"
  proof (intro allI impI)
    fix foundL foundR assume d: "detections E rc l r = Inr (foundL, foundR)"
    from broadcast_frame[of E "positions_message E foundL foundR" "clients st"
      "st\<lparr>calls := calls st @ pipeline_calls rc\<rparr>"]
    obtain ys res where
      "broadcast E (positions_message E foundL foundR) (clients st)
          (st\<lparr>calls := calls st @ pipeline_calls rc\<rparr>)
        = (res, st\<lparr>calls := calls st @ pipeline_calls rc\<rparr>
                  \<lparr>sent := sent (st\<lparr>calls := calls st @ pipeline_calls rc\<rparr>)
              @ map (\<lambda>c. (c, positions_message E foundL foundR)) ys\<rparr>)" by blast
    with d assms(3) show "calls (processStereoPair E l r st) = calls st @ pipeline_calls rc"
      by (simp add: processStereoPair_eq split: sum.splits)
  qed
  from k have 8: "\<exists>k \<le> 11. calls (processStereoPair E l r st) = calls st @ take k (pipeline_calls rc)"
    by blast
  from 1 2 3 4 5 6 7 8 show ?thesis by blast
qed

text \<open>In the example, the second reconstruction is given the rotations and projection
  matrices 11, 21 and 12, 22 that \<open>stereoRectify\<close> returned at startup, and computes both
  maps again.\<close>

theorem stereoRectify_once_maps_in_every_reconstruction_witness:
  "bgrToGray example_env 1 = Inr 1
   \<and> stereoRectify example_env = \<lparr> R1 = 11, R2 = 12, P1 = 21, P2 = 22, Q = 30 \<rparr>
   \<and> rectification (run example_env one_pair (startup example_env)) = stereoRectify example_env
   \<and> count_list (calls (run example_env two_pairs (startup example_env))) StereoRectify = 1
   \<and> calls (processStereoPair example_env 1 2 (run example_env one_pair (startup example_env)))
       = calls (run example_env one_pair (startup example_env))
         @ [BgrToGray, BgrToGray, InitUndistortRectifyMap Cam1 11 21,
            InitUndistortRectifyMap Cam2 12 22, Remap, Remap, StereoBMCompute, Remap, Remap,
            DetectMultiScale, DetectMultiScale]"
proof -
  let ?st = "run example_env one_pair (startup example_env)"
  have g: "bgrToGray example_env 1 = Inr 1" "bgrToGray example_env 2 = Inr 2"
    by (simp_all add: example_env_def)
  have rc: "stereoRectify example_env = rectification ?st"
    by (simp add: run_rectification startup_def)
  have sr: "stereoRectify example_env = \<lparr> R1 = 11, R2 = 12, P1 = 21, P2 = 22, Q = 30 \<rparr>"
    by (simp add: example_env_def)
  from stereoRectify_once_maps_in_every_reconstruction[OF g rc, of two_pairs]
    example_detections(2) g(1) rc
  show ?thesis by (simp add: sr pipeline_calls_def)
qed

text \<open>Claim C7 as stated fails: in a run with two pairs, the maps of each camera are
  computed twice, once per pair and from the same rotation and projection matrix, and
  not at startup.\<close>

theorem maps_cached_counterexample:
  "count_list (calls (startup example_env)) (InitUndistortRectifyMap Cam1 11 21) = 0
   \<and> count_list (calls (startup example_env)) (InitUndistortRectifyMap Cam2 12 22) = 0
   \<and> count_list (calls (run example_env two_pairs (startup example_env)))
        (InitUndistortRectifyMap Cam1 11 21) = 2
   \<and> count_list (calls (run example_env two_pairs (startup example_env)))
        (InitUndistortRectifyMap Cam2 12 22) = 2"
proof -
  have "count_list (calls (startup example_env)) (InitUndistortRectifyMap Cam1 11 21) = 0"
    "count_list (calls (startup example_env)) (InitUndistortRectifyMap Cam2 12 22) = 0"
    by (simp_all add: startup_def)
  moreover have "stereoRectify example_env = \<lparr> R1 = 11, R2 = 12, P1 = 21, P2 = 22, Q = 30 \<rparr>"
    by (simp add: example_env_def)
  ultimately show ?thesis by (simp add: calls_two_pairs pipeline_calls_def)
qed

section \<open>Broadcast: the claims\<close>



text \<open>
  Claim C9. When a reconstruction completes, that is, its detections succeed and \<open>send\<close>
  returns on the open clients, the message is sent once to every open socket of the
  client map, in the order of the map and whatever the role it registered, front or
  back: the loop tests \<open>readyState\<close> only and never reads the role.
\<close>

theorem result_is_sent_to_every_open_registered_client:
  assumes "detections E (rectification st) l r = Inr (foundL, foundR)"
    and "\<forall>c \<in> set (open_clients st (clients st)).
           \<forall>e. send E c (positions_message E foundL foundR) \<noteq> Thrown e"
  shows "sent (processStereoPair E l r st) =
           sent st @ map (\<lambda>c. (c, positions_message E foundL foundR))
                         (open_clients st (clients st))
       \<and> (\<forall>c role. (c, role) \<in> set (clients st) \<and> readyState st c = OPEN \<longrightarrow>
            (c, positions_message E foundL foundR) \<in> set (sent (processStereoPair E l r st)))"
proof -
  let ?st = "st\<lparr>calls := calls st @ pipeline_calls (rectification st)\<rparr>"
  have oc: "open_clients ?st (clients st) = open_clients st (clients st)"
    by (simp add: open_clients_def)
  from assms(2) have
    "broadcast E (positions_message E foundL foundR) (clients st) ?st =
       (Inr (), ?st\<lparr>sent := sent ?st @ map (\<lambda>c. (c, positions_message E foundL foundR))
                                         (open_clients ?st (clients st))\<rparr>)"
    by (intro broadcast_ok) (simp add: oc)
  with assms(1) have eq: "sent (processStereoPair E l r st) =
           sent st @ map (\<lambda>c. (c, positions_message E foundL foundR))
                         (open_clients st (clients st))"
    by (simp add: processStereoPair_eq oc)
  have "(c, positions_message E foundL foundR) \<in> set (sent (processStereoPair E l r st))"
    if "(c, role) \<in> set (clients st)" "readyState st c = OPEN" for c role
  proof -
    from that have "c \<in> set (open_clients st (clients st))"
      by (force simp: open_clients_def)
    with eq show ?thesis by simp
  qed
  with eq show ?thesis by blast
qed

text \<open>In the example the front client 1 and the back clients 2 and 3 are all sent the
  message.\<close>

theorem result_is_sent_to_every_open_registered_client_witness:
  "(1, Front) \<in> set (clients (run example_env registration (startup example_env)))
   \<and> (3, Back) \<in> set (clients (run example_env registration (startup example_env)))
   \<and> sent (processStereoPair example_env 1 2 (run example_env registration (startup example_env)))
       = [(1, example_message), (2, example_message), (3, example_message)]"
proof -
  let ?st = "run example_env registration (startup example_env)"
  have d: "detections example_env (rectification ?st) 1 2 =
     Inr ([\<lparr> rect_x = 170, rect_y = 100, rect_width = 20, rect_height = 40 \<rparr>],
          [\<lparr> rect_x = 150, rect_y = 100, rect_width = 20, rect_height = 40 \<rparr>])"
    using example_detections(2) by (simp only: registration_state)
  have a: "\<forall>c \<in> set (open_clients ?st (clients ?st)). \<forall>e. send example_env c example_message \<noteq> Thrown e"
    by (simp add: example_env_def)
  from result_is_sent_to_every_open_registered_client
    [OF d a[folded example_detections(4)]]
  show ?thesis
    by (simp add: example_detections registration_state open_clients_def)
qed

section \<open>Registration: the claim\<close>

text \<open>A socket enters the client map by a role message naming front or back, and in
  no other way.\<close>

lemma valid_role_enters_client_map:
  "msg_type m = ''role'' \<Longrightarrow> role_of (msg_role m) = Some r \<Longrightarrow>
   map_of (clients (on_message E socket (Some m) st)) socket = Some r
   \<and> myRole (on_message E socket (Some m) st) socket = Some r"
  by (simp add: on_message_def update_conv')

lemma client_map_grows_by_registration_only:
  assumes "c \<in> fst ` set (clients (step E ev st))"
  shows "c \<in> fst ` set (clients st)
       \<or> (\<exists>m r. ev = Message c (Some m) \<and> msg_type m = ''role'' \<and> role_of (msg_role m) = Some r)"
proof (cases ev)
  case (SocketState s rs)
  with assms show ?thesis by simp
next
  case (Connection s)
  with assms show ?thesis by (simp add: on_connection_def)
next
  case (Close s)
  with assms show ?thesis by (auto simp: on_close_def AList.delete_eq)
next
  case (Message s data)
  show ?thesis
  proof (cases "\<exists>m r. data = Some m \<and> msg_type m = ''role'' \<and> role_of (msg_role m) = Some r")
    case True
    then obtain m r where m: "data = Some m" "msg_type m = ''role''" "role_of (msg_role m) = Some r"
      by blast
    with Message have "clients (step E ev st) = AList.update s r (clients st)"
      by (simp add: on_message_def)
    with assms have "c = s \<or> c \<in> fst ` set (clients st)" by (auto simp: dom_update)
    with m Message show ?thesis by blast
  next
    case False
    with Message have "clients (step E ev st) = clients st"
      by (auto simp: on_message_def attemptStereoPair_keeps split: option.splits sum.splits bool.splits)
    with assms show ?thesis by simp
  qed
qed

text \<open>
  Claim C10. A role message whose role is neither \<open>front\<close> nor \<open>back\<close> changes nothing:
  the state after it is the state before it, so the connection keeps its role and the
  client map its entries. A frame the connection sends next is appended to the buffer
  of the role it had, and pairing is attempted, as if the role message had not come.
\<close>

theorem unknown_role_changes_nothing:
  assumes "msg_type m = ''role''"
    and "msg_role m \<noteq> ''front''" and "msg_role m \<noteq> ''back''"
  shows "on_message E socket (Some m) st = st
       \<and> (\<forall>r fm mat. myRole st socket = Some r \<and> msg_type fm = ''frame''
              \<and> imdecode E (msg_img fm) = Inr mat \<longrightarrow>
            on_message E socket (Some fm) (on_message E socket (Some m) st) =
              attemptStereoPair E
                (st\<lparr>frameBuffers := (frameBuffers st)
                     (r := frameBuffers st r @
                        [\<lparr> seq = msg_seq fm, timestamp = msg_timestamp fm, matColor = mat \<rparr>])\<rparr>))"
proof -
  from assms have same: "on_message E socket (Some m) st = st"
    by (simp add: on_message_def role_of_def)
  have "on_message E socket (Some fm) st =
          attemptStereoPair E
            (st\<lparr>frameBuffers := (frameBuffers st)
                 (r := frameBuffers st r @
                    [\<lparr> seq = msg_seq fm, timestamp = msg_timestamp fm, matColor = mat \<rparr>])\<rparr>)"
    if "myRole st socket = Some r" "msg_type fm = ''frame''" "imdecode E (msg_img fm) = Inr mat"
    for r fm mat
    using that by (simp add: on_message_def)
  with same show ?thesis by simp
qed

text \<open>Socket 1 is registered as front; it sends the role \<open>left\<close> and then a frame.\<close>

theorem unknown_role_changes_nothing_witness:
  "myRole (run example_env registration (startup example_env)) 1 = Some Front
   \<and> on_message example_env 1 (Some (role_msg ''left'')) (run example_env registration (startup example_env))
       = run example_env registration (startup example_env)
   \<and> frameBuffers
        (on_message example_env 1 (Some (frame_msg 7 1000 1))
           (on_message example_env 1 (Some (role_msg ''left''))
              (run example_env registration (startup example_env)))) Front
       = [\<lparr> seq = 7, timestamp = 1000, matColor = 1 \<rparr>]"
proof -
  let ?st = "run example_env registration (startup example_env) :: (nat, real) server"
  have r: "myRole ?st 1 = Some Front" by (simp add: registration_state)
  have d: "imdecode example_env (msg_img (frame_msg 7 1000 1)) = Inr 1"
    by (simp add: example_env_def frame_msg_def)
  have f: "msg_type (frame_msg 7 1000 1) = ''frame''" by (simp add: frame_msg_def)
  have prem: "msg_type (role_msg ''left'') = ''role''"
    "msg_role (role_msg ''left'') \<noteq> ''front''" "msg_role (role_msg ''left'') \<noteq> ''back''"
    by (simp_all add: role_msg_def)
  note inst = unknown_role_changes_nothing[OF prem, where E = example_env and socket = 1 and st = ?st]
  from inst have same: "on_message example_env 1 (Some (role_msg ''left'')) ?st = ?st"
    by (rule conjunct1)
  from inst r f d
  have "on_message example_env 1 (Some (frame_msg 7 1000 1))
          (on_message example_env 1 (Some (role_msg ''left'')) ?st) =
        attemptStereoPair example_env
          (?st\<lparr>frameBuffers := (frameBuffers ?st)
             (Front := frameBuffers ?st Front @
                [\<lparr> seq = msg_seq (frame_msg 7 1000 1), timestamp = msg_timestamp (frame_msg 7 1000 1),
                   matColor = 1 \<rparr>])\<rparr>)"
    by blast
  with r same show ?thesis
    by (simp add: frame_msg_def registration_state attemptStereoPair_def)
qed

section \<open>Supporting facts\<close>

text \<open>A non-empty back buffer always has a first frame of least difference, so the
  pairing theorem applies to every state with two non-empty buffers.\<close>

lemma first_nearest_exists:
  assumes "bs \<noteq> []"
  shows "\<exists>i < length bs. (\<forall>j < length bs. dt_of f (bs ! i) \<le> dt_of f (bs ! j))
                        \<and> (\<forall>j < i. dt_of f (bs ! j) \<noteq> dt_of f (bs ! i))"
proof -
  let ?m = "Min (dt_of f ` set bs)"
  from assms have "?m \<in> dt_of f ` set bs" by (intro Min_in) simp_all
  then obtain k where k: "k < length bs" "dt_of f (bs ! k) = ?m"
    by (auto simp: in_set_conv_nth)
  define i where "i = (LEAST k. k < length bs \<and> dt_of f (bs ! k) = ?m)"
  from k have i: "i < length bs \<and> dt_of f (bs ! i) = ?m"
    unfolding i_def by (intro LeastI[of "\<lambda>k. k < length bs \<and> dt_of f (bs ! k) = ?m" k]) simp
  have least: "?m \<le> dt_of f (bs ! j)" if "j < length bs" for j
    using that by (intro Min_le) simp_all
  have first: "dt_of f (bs ! j) \<noteq> ?m" if "j < i" for j
  proof
    assume "dt_of f (bs ! j) = ?m"
    with that i have "j < length bs \<and> dt_of f (bs ! j) = ?m" by simp
    then have "i \<le> j" unfolding i_def by (rule Least_le)
    with that show False by simp
  qed
  from i least first show ?thesis by auto
qed

text \<open>The scan returns \<open>-1\<close> or an index of the buffer, so \<open>splice\<close> always removes a
  frame and no exception escapes \<open>attemptStereoPair\<close>.\<close>

lemma scanBack_index:
  assumes "scanBack b ft 0 (- 1, sd) = (bi, sd')"
  shows "bi = - 1 \<or> (0 \<le> bi \<and> bi < int (length b))"
  using scanBack_cases[OF assms] by auto

lemma splice1_removes:
  assumes "xs \<noteq> []" and "start = - 1 \<or> (0 \<le> start \<and> start < int (length xs))"
  shows "fst (splice1 xs start) \<noteq> []"
proof -
  from assms(1) obtain x xs' where "xs = x # xs'" by (cases xs) auto
  with assms(2) show ?thesis by (auto simp: splice1_def Let_def nat_add_distrib)
qed

lemma attemptStereoPair_uncaught: "uncaught (attemptStereoPair E st) = uncaught st"
proof (cases "frameBuffers st Front")
  case Nil
  then show ?thesis by (simp add: attemptStereoPair_def)
next
  case front: (Cons f fs)
  show ?thesis
  proof (cases "frameBuffers st Back")
    case Nil
    with front show ?thesis by (simp add: attemptStereoPair_def)
  next
    case bk: (Cons b bs)
    obtain bi sd where scan: "scanBack (b # bs) (timestamp f) 0 (- 1, MAX_SAFE_INTEGER) = (bi, sd)"
      by (cases "scanBack (b # bs) (timestamp f) 0 (- 1, MAX_SAFE_INTEGER)")
    obtain removed backRest where sp: "splice1 (b # bs) bi = (removed, backRest)"
      by (cases "splice1 (b # bs) bi")
    from splice1_removes[OF _ scanBack_index[OF scan]] sp have "removed \<noteq> []" by simp
    then obtain backFrame more where "removed = backFrame # more" by (cases removed) auto
    with front bk scan sp show ?thesis
      by (simp add: attemptStereoPair_def processStereoPair_keeps)
  qed
qed

lemma step_uncaught: "uncaught (step E ev st) = uncaught st"
proof (cases ev)
  case (Message s data)
  then show ?thesis
    by (auto simp: on_message_def attemptStereoPair_uncaught
        split: option.splits sum.splits bool.splits)
qed (simp_all add: on_connection_def on_close_def)

lemma run_uncaught: "uncaught (run E evs (startup E)) = []"
proof (induction evs rule: rev_induct)
  case Nil
  then show ?case by (simp add: run_def startup_def)
next
  case (snoc ev evs)
  have "run E (evs @ [ev]) (startup E) = step E ev (run E evs (startup E))" by (simp add: run_def)
  with snoc show ?case by (simp add: step_uncaught)
qed

text \<open>Over the reals the triangulation is the pinhole formula in its usual notation.\<close>

lemma triangulate_real:
  assumes "js E = real_arith" and "0 < pt_x ptL - pt_x ptR"
  shows "triangulate E ptL ptR =
     \<lparr> pos_x = (pt_x ptL - cameraMatrix1 E 0 2)
                * (cameraMatrix1 E 0 0 * \<bar>T E 0 0\<bar> / (pt_x ptL - pt_x ptR)) / cameraMatrix1 E 0 0,
       pos_y = (pt_y ptL - cameraMatrix1 E 1 2)
                * (cameraMatrix1 E 0 0 * \<bar>T E 0 0\<bar> / (pt_x ptL - pt_x ptR)) / cameraMatrix1 E 1 1,
       pos_z = cameraMatrix1 E 0 0 * \<bar>T E 0 0\<bar> / (pt_x ptL - pt_x ptR) \<rparr>"
  using assms by (simp add: triangulate_def real_arith_def le_def Let_def)

end
